theory Spec2Isabelle
  imports Complex_Main "HOL-Library.AList"
begin

section \<open>Python values and the operations the rules use on them\<close>

text \<open>
  A harvested record is what \<^verbatim>\<open>json.load\<close> returns: nested dictionaries with string
  keys, lists, strings, numbers, booleans and \<^verbatim>\<open>None\<close>. A dictionary is an association
  list read with \<^const>\<open>map_of\<close>, so insertion order is kept and a key is looked up at its
  first occurrence. Strings are \<^typ>\<open>string\<close>; case folding and the character classes
  are those of ASCII text.
\<close>

datatype py =
    PNone
  | PBool bool
  | PInt int
  | PFloat rat
  | PStr string
  | PList "py list"
  | PDict "(string \<times> py) list"

datatype error = AttributeError | TypeError | KeyError

type_synonym dict = "(string \<times> py) list"

text \<open>\<^verbatim>\<open>bool(x)\<close>, the test behind \<^verbatim>\<open>not x\<close>, \<^verbatim>\<open>x and y\<close> and \<^verbatim>\<open>a if x else b\<close>.\<close>

fun truthy :: "py \<Rightarrow> bool" where
  "truthy PNone = False"
| "truthy (PBool b) = b"
| "truthy (PInt i) = (i \<noteq> 0)"
| "truthy (PFloat r) = (r \<noteq> 0)"
| "truthy (PStr s) = (s \<noteq> [])"
| "truthy (PList xs) = (xs \<noteq> [])"
| "truthy (PDict kvs) = (kvs \<noteq> [])"

text \<open>
  \<^verbatim>\<open>isinstance(x, str)\<close>. The test \<^verbatim>\<open>isinstance(x, list)\<close> is written as a pattern
  \<open>PList entries\<close> where a rule branches on it.
\<close>

fun is_str :: "py \<Rightarrow> bool" where
  "is_str (PStr s) = True"
| "is_str _ = False"

text \<open>\<^verbatim>\<open>sub in s\<close> on two strings: \<^verbatim>\<open>sub\<close> occurs in \<^verbatim>\<open>s\<close> as a contiguous block.\<close>

fun contains :: "string \<Rightarrow> string \<Rightarrow> bool" where
  "contains sub [] = (sub = [])"
| "contains sub (c # cs) = (take (length sub) (c # cs) = sub \<or> contains sub cs)"

text \<open>\<^verbatim>\<open>s.lower()\<close>.\<close>

definition upper_letters :: string where
  "upper_letters = ''ABCDEFGHIJKLMNOPQRSTUVWXYZ''"

definition lower_letters :: string where
  "lower_letters = ''abcdefghijklmnopqrstuvwxyz''"

definition lower_char :: "char \<Rightarrow> char" where
  "lower_char c =
     (case map_of (zip upper_letters lower_letters) c of Some l \<Rightarrow> l | None \<Rightarrow> c)"

definition lower :: "string \<Rightarrow> string" where
  "lower s = map lower_char s"

text \<open>
  \<^verbatim>\<open>x.lower()\<close> on an arbitrary value: only a string has the method, anything else
  raises \<^verbatim>\<open>AttributeError\<close>.
\<close>

fun py_lower :: "py \<Rightarrow> error + string" where
  "py_lower (PStr s) = Inr (lower s)"
| "py_lower _ = Inl AttributeError"

text \<open>
  \<^verbatim>\<open>entry.get(key, default)\<close>: only a dictionary has the method; a string, a list, a
  number or \<^verbatim>\<open>None\<close> raises \<^verbatim>\<open>AttributeError\<close>.
\<close>

fun py_get :: "py \<Rightarrow> string \<Rightarrow> py \<Rightarrow> error + py" where
  "py_get (PDict kvs) key dflt =
     Inr (case map_of kvs key of Some v \<Rightarrow> v | None \<Rightarrow> dflt)"
| "py_get _ key dflt = Inl AttributeError"

text \<open>
  \<^verbatim>\<open>"lit" in x\<close> for a string literal on the left: substring test on a string, element
  test on a list, key test on a dictionary, \<^verbatim>\<open>TypeError\<close> on \<^verbatim>\<open>None\<close>, a boolean or a
  number.
\<close>

fun str_in :: "string \<Rightarrow> py \<Rightarrow> error + bool" where
  "str_in lit (PStr s) = Inr (contains lit s)"
| "str_in lit (PList xs) = Inr (PStr lit \<in> set xs)"
| "str_in lit (PDict kvs) = Inr (lit \<in> fst ` set kvs)"
| "str_in lit _ = Inl TypeError"

text \<open>
  \<^verbatim>\<open>x["key"]\<close> with a string key: the value in a dictionary (\<^verbatim>\<open>KeyError\<close> when
  absent); a string or a list takes integer indices only and anything else is not
  subscriptable, both \<^verbatim>\<open>TypeError\<close>.
\<close>

fun py_index :: "py \<Rightarrow> string \<Rightarrow> error + py" where
  "py_index (PDict kvs) key =
     (case map_of kvs key of Some v \<Rightarrow> Inr v | None \<Rightarrow> Inl KeyError)"
| "py_index _ key = Inl TypeError"

text \<open>Sequencing of two steps either of which may raise: the first exception wins.\<close>

definition bind_r :: "error + 'a \<Rightarrow> ('a \<Rightarrow> error + 'b) \<Rightarrow> error + 'b" where
  "bind_r m f = (case m of Inl e \<Rightarrow> Inl e | Inr v \<Rightarrow> f v)"

text \<open>
  The guard \<^verbatim>\<open>"result" in entry and "value" in entry["result"]\<close>; \<^verbatim>\<open>and\<close> evaluates
  its right operand only when the left one is true.
\<close>

definition has_result_value :: "py \<Rightarrow> error + bool" where
  "has_result_value entry =
     bind_r (str_in ''result'' entry) (\<lambda>has_result.
       if has_result
       then bind_r (py_index entry ''result'') (\<lambda>r. str_in ''value'' r)
       else Inr False)"

text \<open>\<^verbatim>\<open>entry["result"]["value"]\<close>.\<close>

definition result_value :: "py \<Rightarrow> error + py" where
  "result_value entry = bind_r (py_index entry ''result'') (\<lambda>r. py_index r ''value'')"

text \<open>
  The rules build their Finding in a local dictionary \<^verbatim>\<open>result\<close> while they read the
  caller's \<^verbatim>\<open>somef_data\<close>. Both objects are kept in a store that every statement
  takes and returns, so that a write to either would be visible.
\<close>

record store =
  somef_data :: dict
  result :: dict

text \<open>\<^verbatim>\<open>result[key] = v\<close>: an existing key keeps its position.\<close>

definition set_result :: "string \<Rightarrow> py \<Rightarrow> store \<Rightarrow> store" where
  "set_result key v st = st\<lparr>result := AList.update key v (result st)\<rparr>"

text \<open>\<^verbatim>\<open>result[key]\<close>.\<close>

definition get_result :: "string \<Rightarrow> store \<Rightarrow> error + py" where
  "get_result key st = py_index (PDict (result st)) key"

text \<open>A \<^verbatim>\<open>for\<close> loop without \<^verbatim>\<open>break\<close>: the body runs on each element in order.\<close>

fun for_each :: "('a \<Rightarrow> 's \<Rightarrow> error + 's) \<Rightarrow> 'a list \<Rightarrow> 's \<Rightarrow> error + 's" where
  "for_each body [] st = Inr st"
| "for_each body (x # xs) st = bind_r (body x st) (for_each body xs)"

section \<open>p007: reference publication missing from CITATION.cff\<close>

definition p007_result :: "string \<Rightarrow> dict" where
  "p007_result file_name =
     [(''has_pitfall'', PBool False),
      (''file_name'', PStr file_name),
      (''codemeta_has_reference'', PBool False),
      (''citation_cff_has_reference'', PBool False),
      (''citation_cff_exists'', PBool False)]"

text \<open>The body of the loop over \<^verbatim>\<open>somef_data["reference_publication"]\<close>.\<close>

definition reference_entry :: "py \<Rightarrow> store \<Rightarrow> error + store" where
  "reference_entry entry st =
     bind_r (py_get entry ''source'' (PStr [])) (\<lambda>source.
     bind_r (py_get entry ''technique'' (PStr [])) (\<lambda>technique.
     bind_r (if technique = PStr ''code_parser'' then str_in ''codemeta.json'' source
             else Inr False) (\<lambda>from_codemeta.
       if from_codemeta
       then bind_r (has_result_value entry) (\<lambda>has_value.
              Inr (if has_value then set_result ''codemeta_has_reference'' (PBool True) st
                   else st))
       else bind_r (str_in ''CITATION.cff'' source) (\<lambda>from_citation.
              if from_citation
              then bind_r (has_result_value entry) (\<lambda>has_value.
                     Inr (if has_value
                          then set_result ''citation_cff_has_reference'' (PBool True) st
                          else st))
              else Inr st))))"

definition scan_reference_publication :: "store \<Rightarrow> error + store" where
  "scan_reference_publication st =
     (case map_of (somef_data st) ''reference_publication'' of
        Some (PList ref_pub_entries) \<Rightarrow> for_each reference_entry ref_pub_entries st
      | _ \<Rightarrow> Inr st)"

definition citation_cff_sources :: "string list" where
  "citation_cff_sources = [''authors'', ''title'', ''description'', ''version'', ''license'']"

text \<open>The inner loop over one category's entries, left at the first CITATION.cff source.\<close>

fun scan_category :: "py list \<Rightarrow> store \<Rightarrow> error + store" where
  "scan_category [] st = Inr st"
| "scan_category (entry # entries) st =
     bind_r (py_get entry ''source'' (PStr [])) (\<lambda>source.
     bind_r (str_in ''CITATION.cff'' source) (\<lambda>from_citation.
       if from_citation then Inr (set_result ''citation_cff_exists'' (PBool True) st)
       else scan_category entries st))"

text \<open>The outer loop over the categories, left once \<^verbatim>\<open>citation_cff_exists\<close> is set.\<close>

fun scan_categories :: "string list \<Rightarrow> store \<Rightarrow> error + store" where
  "scan_categories [] st = Inr st"
| "scan_categories (category # categories) st =
     bind_r (case map_of (somef_data st) category of
               Some (PList entries) \<Rightarrow> scan_category entries st
             | _ \<Rightarrow> Inr st) (\<lambda>st1.
     bind_r (get_result ''citation_cff_exists'' st1) (\<lambda>found.
       if truthy found then Inr st1 else scan_categories categories st1))"

definition conclude_p007 :: "store \<Rightarrow> error + store" where
  "conclude_p007 st =
     bind_r (get_result ''codemeta_has_reference'' st) (\<lambda>codemeta_ref.
       if \<not> truthy codemeta_ref then Inr st
       else bind_r (get_result ''citation_cff_exists'' st) (\<lambda>cff_exists.
         if \<not> truthy cff_exists then Inr st
         else bind_r (get_result ''citation_cff_has_reference'' st) (\<lambda>cff_ref.
           if \<not> truthy cff_ref then Inr (set_result ''has_pitfall'' (PBool True) st)
           else Inr st)))"

text \<open>The whole body, from the store at entry to the store at \<^verbatim>\<open>return result\<close>.\<close>

definition p007_body :: "dict \<Rightarrow> string \<Rightarrow> error + store" where
  "p007_body data file_name =
     bind_r (scan_reference_publication
               \<lparr>somef_data = data, result = p007_result file_name\<rparr>) (\<lambda>st1.
     bind_r (scan_categories citation_cff_sources st1) conclude_p007)"

definition detect_citation_missing_reference_publication_pitfall ::
    "dict \<Rightarrow> string \<Rightarrow> error + dict" where
  "detect_citation_missing_reference_publication_pitfall data file_name =
     bind_r (p007_body data file_name) (\<lambda>st. Inr (result st))"

section \<open>p009: repository URL versus homepage\<close>

definition repo_indicators :: "string list" where
  "repo_indicators =
     [''github.com/'', ''github.org/'', ''gitlab.com/'', ''gitlab.org/'',
      ''bitbucket.org/'', ''bitbucket.net/'', ''sourceforge.net/projects/'',
      ''git.'', ''.git'']"

definition homepage_indicators :: "string list" where
  "homepage_indicators =
     [''.org/'', ''.com/'', ''.net/'', ''.io/'', ''www.'', ''docs.'',
      ''documentation'', ''readthedocs'', ''github.io'']"

definition is_repository_url :: "py \<Rightarrow> error + bool" where
  "is_repository_url url =
     (if \<not> truthy url then Inr False
      else case py_lower url of
        Inl e \<Rightarrow> Inl e
      | Inr url_lower \<Rightarrow>
          if contains ''github.io'' url_lower then Inr False
          else Inr (list_ex (\<lambda>indicator. contains indicator url_lower) repo_indicators))"

definition is_homepage_url_repo :: "py \<Rightarrow> error + bool" where
  "is_homepage_url_repo url =
     (if \<not> truthy url then Inr False
      else case py_lower url of
        Inl e \<Rightarrow> Inl e
      | Inr url_lower \<Rightarrow>
          (case is_repository_url url of
             Inl e \<Rightarrow> Inl e
           | Inr True \<Rightarrow> Inr False
           | Inr False \<Rightarrow>
               Inr (list_ex (\<lambda>indicator. contains indicator url_lower) homepage_indicators)))"

definition p009_result :: "string \<Rightarrow> dict" where
  "p009_result file_name =
     [(''has_pitfall'', PBool False),
      (''file_name'', PStr file_name),
      (''repository_url'', PNone),
      (''source'', PNone),
      (''metadata_source_file'', PNone),
      (''is_homepage'', PBool False)]"

definition metadata_sources :: "string list" where
  "metadata_sources =
     [''codemeta.json'', ''DESCRIPTION'', ''composer.json'', ''package.json'',
      ''pom.xml'', ''pyproject.toml'', ''requirements.txt'', ''setup.py'']"

text \<open>
  \<^verbatim>\<open>technique == "code_parser" or technique in metadata_sources or
  any(src in source.lower() for src in metadata_sources)\<close>: the source is lowered only
  when neither test on the technique succeeded.
\<close>

definition is_metadata_source :: "py \<Rightarrow> py \<Rightarrow> error + bool" where
  "is_metadata_source technique source =
     (if technique = PStr ''code_parser'' \<or> technique \<in> PStr ` set metadata_sources
      then Inr True
      else bind_r (py_lower source) (\<lambda>source_lower.
             Inr (list_ex (\<lambda>src. contains src source_lower) metadata_sources)))"

text \<open>
  \<^verbatim>\<open>f"technique: {technique}"\<close>. A string is inserted as it is; the text Python prints
  for any other value is the parameter \<open>str_of\<close>.
\<close>

fun technique_label :: "(py \<Rightarrow> string) \<Rightarrow> py \<Rightarrow> string" where
  "technique_label str_of (PStr t) = ''technique: '' @ t"
| "technique_label str_of v = ''technique: '' @ str_of v"

text \<open>
  The loop over \<^verbatim>\<open>somef_data["code_repository"]\<close>, left at the first homepage URL.
  \<^verbatim>\<open>extract_metadata_source_filename\<close> lives in \<^verbatim>\<open>metacheck.utils.pitfall_utils\<close>; it
  is the parameter \<open>source_filename\<close>, a function that may raise.
\<close>

fun scan_repositories ::
    "(py \<Rightarrow> error + py) \<Rightarrow> (py \<Rightarrow> string) \<Rightarrow> py list \<Rightarrow> store \<Rightarrow> error + store" where
  "scan_repositories source_filename str_of [] st = Inr st"
| "scan_repositories source_filename str_of (entry # entries) st =
     bind_r (py_get entry ''technique'' (PStr [])) (\<lambda>technique.
     bind_r (py_get entry ''source'' (PStr [])) (\<lambda>source.
     bind_r (is_metadata_source technique source) (\<lambda>from_metadata.
       if \<not> from_metadata then scan_repositories source_filename str_of entries st
       else bind_r (has_result_value entry) (\<lambda>has_value.
         if \<not> has_value then scan_repositories source_filename str_of entries st
         else bind_r (result_value entry) (\<lambda>repo_url.
           bind_r (is_homepage_url_repo repo_url) (\<lambda>homepage.
             if \<not> homepage then scan_repositories source_filename str_of entries st
             else bind_r (source_filename source) (\<lambda>source_file.
               Inr (set_result ''is_homepage'' (PBool True)
                   (set_result ''metadata_source_file'' source_file
                   (set_result ''source''
                      (if truthy source then source
                       else PStr (technique_label str_of technique))
                   (set_result ''repository_url'' repo_url
                   (set_result ''has_pitfall'' (PBool True) st))))))))))))"

definition p009_body ::
    "(py \<Rightarrow> error + py) \<Rightarrow> (py \<Rightarrow> string) \<Rightarrow> dict \<Rightarrow> string \<Rightarrow> error + store" where
  "p009_body source_filename str_of data file_name =
     (let st = \<lparr>somef_data = data, result = p009_result file_name\<rparr>
      in case map_of (somef_data st) ''code_repository'' of
           Some (PList repo_entries) \<Rightarrow>
             scan_repositories source_filename str_of repo_entries st
         | _ \<Rightarrow> Inr st)"

definition detect_coderepository_homepage_pitfall ::
    "(py \<Rightarrow> error + py) \<Rightarrow> (py \<Rightarrow> string) \<Rightarrow> dict \<Rightarrow> string \<Rightarrow> error + dict" where
  "detect_coderepository_homepage_pitfall source_filename str_of data file_name =
     bind_r (p009_body source_filename str_of data file_name) (\<lambda>st. Inr (result st))"

section \<open>w006: a name used as identifier\<close>

definition whitespace :: "char list" where
  "whitespace =
     [CHR 0x09, CHR 0x0A, CHR 0x0B, CHR 0x0C, CHR 0x0D,
      CHR 0x1C, CHR 0x1D, CHR 0x1E, CHR 0x1F, CHR '' '']"

text \<open>\<^verbatim>\<open>s.strip()\<close>.\<close>

definition strip :: "string \<Rightarrow> string" where
  "strip s =
     rev (dropWhile (\<lambda>c. c \<in> set whitespace) (rev (dropWhile (\<lambda>c. c \<in> set whitespace) s)))"

definition is_digit :: "char \<Rightarrow> bool" where
  "is_digit c = (c \<in> set ''0123456789'')"

text \<open>\<^verbatim>\<open>s.isalpha()\<close>: at least one character, and letters only.\<close>

definition isalpha :: "string \<Rightarrow> bool" where
  "isalpha s = (s \<noteq> [] \<and> (\<forall>c \<in> set s. c \<in> set (upper_letters @ lower_letters)))"

text \<open>
  The regular expressions are matched by \<^verbatim>\<open>re.match\<close>, that is at the start of the text,
  and with \<^verbatim>\<open>re.IGNORECASE\<close>. \<^verbatim>\<open>.\<close> is any character but the newline. The digits of
  \<^verbatim>\<open>\d+\<close> are followed by \<^verbatim>\<open>/\<close>, which is no digit, so they are the longest run of digits.
\<close>

definition any_char :: "string \<Rightarrow> bool" where
  "any_char s = (case s of [] \<Rightarrow> False | c # _ \<Rightarrow> c \<noteq> CHR 0x0A)"

text \<open>\<^verbatim>\<open>\d+/.+\<close>\<close>

definition doi_tail :: "string \<Rightarrow> bool" where
  "doi_tail s =
     (takeWhile is_digit s \<noteq> [] \<and>
      (case dropWhile is_digit s of
         [] \<Rightarrow> False
       | c # rest \<Rightarrow> c = CHR ''/'' \<and> any_char rest))"

text \<open>\<^verbatim>\<open>^doi:10\.\d+/.+\<close>\<close>

definition matches_prefixed_doi :: "string \<Rightarrow> bool" where
  "matches_prefixed_doi s = (lower (take 7 s) = ''doi:10.'' \<and> doi_tail (drop 7 s))"

text \<open>\<^verbatim>\<open>^10\.\d+/.+\<close>\<close>

definition matches_bare_doi :: "string \<Rightarrow> bool" where
  "matches_bare_doi s = (take 3 s = ''10.'' \<and> doi_tail (drop 3 s))"

text \<open>\<^verbatim>\<open>^https?://.+\<close>\<close>

definition matches_http_url :: "string \<Rightarrow> bool" where
  "matches_http_url s =
     ((lower (take 7 s) = ''http://'' \<and> any_char (drop 7 s)) \<or>
      (lower (take 8 s) = ''https://'' \<and> any_char (drop 8 s)))"

fun is_valid_identifier :: "py \<Rightarrow> bool" where
  "is_valid_identifier (PStr text) =
     (if text = [] then False
      else let identifier = strip text in
        if identifier = [] then False
        else if matches_prefixed_doi identifier \<or> matches_bare_doi identifier then True
        else if lower identifier \<in> {''doi:'', ''10.''} then False
        else if matches_http_url identifier then True
        else if take 6 (lower identifier) = ''ftp://'' then False
        else if CHR '' '' \<in> set identifier \<and>
                \<not> (\<exists>ch \<in> set ''/:.''. ch \<in> set identifier) then False
        else if isalpha (filter (\<lambda>c. c \<notin> set '' -_'') identifier) then False
        else True)"
| "is_valid_identifier _ = False"

text \<open>The local variables of \<^verbatim>\<open>detect_identifier_name_warning\<close>.\<close>

record w006_vars =
  codemeta_identifier :: py
  codemeta_source :: py
  other_identifier :: py
  other_source :: py
  other_identifiers :: "py list"

definition w006_vars0 :: w006_vars where
  "w006_vars0 =
     \<lparr>codemeta_identifier = PNone, codemeta_source = PNone,
      other_identifier = PNone, other_source = PNone, other_identifiers = []\<rparr>"

definition w006_result :: "string \<Rightarrow> dict" where
  "w006_result file_name =
     [(''has_warning'', PBool False),
      (''file_name'', PStr file_name),
      (''codemeta_identifier'', PNone),
      (''other_identifier'', PNone),
      (''codemeta_source'', PNone),
      (''other_source'', PNone),
      (''has_valid_identifier_elsewhere'', PBool False),
      (''other_identifiers'', PList [])]"

text \<open>
  \<^verbatim>\<open>"codemeta.json" in source.lower() or
  (technique == "code_parser" and "codemeta" in source.lower())\<close>
\<close>

definition is_codemeta :: "py \<Rightarrow> py \<Rightarrow> error + bool" where
  "is_codemeta source technique =
     bind_r (py_lower source) (\<lambda>source_lower.
       Inr (contains ''codemeta.json'' source_lower \<or>
            (technique = PStr ''code_parser'' \<and> contains ''codemeta'' source_lower)))"

text \<open>The first loop, left at the first codemeta entry that carries a value.\<close>

fun find_codemeta :: "py list \<Rightarrow> w006_vars \<Rightarrow> error + w006_vars" where
  "find_codemeta [] vars = Inr vars"
| "find_codemeta (entry # entries) vars =
     bind_r (py_get entry ''source'' (PStr [])) (\<lambda>source.
     bind_r (py_get entry ''technique'' (PStr [])) (\<lambda>technique.
     bind_r (is_codemeta source technique) (\<lambda>codemeta.
       if \<not> codemeta then find_codemeta entries vars
       else bind_r (has_result_value entry) (\<lambda>has_value.
         if \<not> has_value then find_codemeta entries vars
         else if codemeta_identifier vars = PNone
         then bind_r (result_value entry) (\<lambda>v.
                Inr (vars\<lparr>codemeta_identifier := v, codemeta_source := source\<rparr>))
         else find_codemeta entries vars))))"

text \<open>The body of the second loop.\<close>

definition collect_other :: "py \<Rightarrow> w006_vars \<Rightarrow> error + w006_vars" where
  "collect_other entry vars =
     bind_r (py_get entry ''source'' (PStr [])) (\<lambda>source.
     bind_r (py_get entry ''technique'' (PStr [])) (\<lambda>technique.
     bind_r (is_codemeta source technique) (\<lambda>codemeta.
       if codemeta then Inr vars
       else bind_r (has_result_value entry) (\<lambda>has_value.
         if \<not> has_value then Inr vars
         else bind_r (result_value entry) (\<lambda>identifier_value.
           if \<not> is_valid_identifier identifier_value then Inr vars
           else let vars1 = vars\<lparr>other_identifiers := other_identifiers vars @
                                  [PDict [(''value'', identifier_value), (''source'', source)]]\<rparr>
                in Inr (if other_identifier vars1 = PNone
                        then vars1\<lparr>other_identifier := identifier_value,
                                   other_source := source\<rparr>
                        else vars1))))))"

text \<open>The assignments to \<^verbatim>\<open>result\<close> after the loops.\<close>

definition conclude_w006 :: "w006_vars \<Rightarrow> dict \<Rightarrow> dict" where
  "conclude_w006 vars result0 =
     (let r = AList.update ''has_valid_identifier_elsewhere''
                (PBool (length (other_identifiers vars) > 0))
             (AList.update ''other_identifiers'' (PList (other_identifiers vars))
             (AList.update ''other_source'' (other_source vars)
             (AList.update ''other_identifier'' (other_identifier vars)
             (AList.update ''codemeta_source'' (codemeta_source vars)
             (AList.update ''codemeta_identifier'' (codemeta_identifier vars) result0)))))
      in if truthy (codemeta_identifier vars) \<and>
            \<not> is_valid_identifier (codemeta_identifier vars) \<and>
            truthy (other_identifier vars)
         then AList.update ''has_warning'' (PBool True) r
         else r)"

definition detect_identifier_name_warning :: "dict \<Rightarrow> string \<Rightarrow> error + dict" where
  "detect_identifier_name_warning data file_name =
     (case map_of data ''identifier'' of
        Some (PList identifier_entries) \<Rightarrow>
          bind_r (find_codemeta identifier_entries w006_vars0) (\<lambda>vars1.
          bind_r (for_each collect_other identifier_entries vars1) (\<lambda>vars.
            Inr (conclude_w006 vars (w006_result file_name))))
      | _ \<Rightarrow> Inr (w006_result file_name))"

section \<open>Findings and the records the rules are written for\<close>

text \<open>The value a Finding holds under a key.\<close>

definition field :: "string \<Rightarrow> dict \<Rightarrow> py option" where
  "field key r = map_of r key"

text \<open>The keys of the \<^verbatim>\<open>result\<close> literal of each rule, in the order of the literal.\<close>

definition p007_fields :: "string list" where
  "p007_fields = [''has_pitfall'', ''file_name'', ''codemeta_has_reference'',
      ''citation_cff_has_reference'', ''citation_cff_exists'']"

definition p009_fields :: "string list" where
  "p009_fields = [''has_pitfall'', ''file_name'', ''repository_url'', ''source'',
      ''metadata_source_file'', ''is_homepage'']"

definition w006_fields :: "string list" where
  "w006_fields = [''has_warning'', ''file_name'', ''codemeta_identifier'', ''other_identifier'',
      ''codemeta_source'', ''other_source'', ''has_valid_identifier_elsewhere'',
      ''other_identifiers'']"

text \<open>
  What holds of the store throughout a call of p007 or p009 on the record \<open>data\<close>: the
  record is the one passed in, and \<^verbatim>\<open>result\<close> has the keys of its literal.
\<close>

definition p007_inv :: "dict \<Rightarrow> store \<Rightarrow> bool" where
  "p007_inv data st = (somef_data st = data \<and> map fst (result st) = p007_fields)"

definition p009_inv :: "dict \<Rightarrow> store \<Rightarrow> bool" where
  "p009_inv data st = (somef_data st = data \<and> map fst (result st) = p009_fields)"

text \<open>
  The rules read every entry with \<^verbatim>\<open>entry.get\<close>, test its source with
  \<^verbatim>\<open>in\<close> or \<^verbatim>\<open>.lower()\<close> and its result with \<^verbatim>\<open>"value" in entry["result"]\<close>. An entry
  is sound when it is a dictionary whose source, if any, is a string and whose result,
  if any, is a dictionary. An attribute is sound when it is absent, not a list, or a
  list of sound entries.
\<close>

fun is_dict :: "py \<Rightarrow> bool" where
  "is_dict (PDict kvs) = True"
| "is_dict _ = False"

definition sound_entry :: "py \<Rightarrow> bool" where
  "sound_entry entry =
     (case entry of
        PDict kvs \<Rightarrow>
          (case map_of kvs ''source'' of None \<Rightarrow> True | Some s \<Rightarrow> is_str s) \<and>
          (case map_of kvs ''result'' of None \<Rightarrow> True | Some r \<Rightarrow> is_dict r)
      | _ \<Rightarrow> False)"

definition sound_attribute :: "dict \<Rightarrow> string \<Rightarrow> bool" where
  "sound_attribute data key =
     (case map_of data key of
        Some (PList entries) \<Rightarrow> list_all sound_entry entries
      | _ \<Rightarrow> True)"

text \<open>p007 scans \<^verbatim>\<open>reference_publication\<close> and the five CITATION.cff categories.\<close>

definition p007_sound :: "dict \<Rightarrow> bool" where
  "p007_sound data =
     list_all (sound_attribute data) (''reference_publication'' # citation_cff_sources)"

text \<open>
  p009 passes the value of a result to \<^verbatim>\<open>is_homepage_url_repo\<close>, which calls
  \<^verbatim>\<open>.lower()\<close> on anything that is not false: the value has to be a string or a false
  value such as \<^verbatim>\<open>None\<close>.
\<close>

definition sound_repository_entry :: "py \<Rightarrow> bool" where
  "sound_repository_entry entry =
     (sound_entry entry \<and>
      (case result_value entry of Inr v \<Rightarrow> is_str v \<or> \<not> truthy v | Inl e \<Rightarrow> True))"

definition p009_sound :: "dict \<Rightarrow> bool" where
  "p009_sound data =
     (case map_of data ''code_repository'' of
        Some (PList entries) \<Rightarrow> list_all sound_repository_entry entries
      | _ \<Rightarrow> True)"

text \<open>
  The valid identifiers found outside codemeta, stated without the loop: an entry
  contributes its value and its source when it is read without an exception, is not a
  codemeta entry, carries a value, and the value is a valid identifier.
\<close>

definition valid_other :: "py \<Rightarrow> (py \<times> py) option" where
  "valid_other entry =
     (case (py_get entry ''source'' (PStr []), py_get entry ''technique'' (PStr [])) of
        (Inr source, Inr technique) \<Rightarrow>
          (case (is_codemeta source technique, has_result_value entry, result_value entry) of
             (Inr False, Inr True, Inr v) \<Rightarrow>
               if is_valid_identifier v then Some (v, source) else None
           | _ \<Rightarrow> None)
      | _ \<Rightarrow> None)"

text \<open>All of them, in extraction order, and the value of the first.\<close>

definition valid_others :: "dict \<Rightarrow> (py \<times> py) list" where
  "valid_others data =
     (case map_of data ''identifier'' of
        Some (PList identifier_entries) \<Rightarrow> List.map_filter valid_other identifier_entries
      | _ \<Rightarrow> [])"

definition first_valid_other :: "dict \<Rightarrow> py" where
  "first_valid_other data = (case valid_others data of [] \<Rightarrow> PNone | (v, source) # _ \<Rightarrow> v)"

text \<open>The dictionary \<^verbatim>\<open>{"value": ..., "source": ...}\<close> appended to \<^verbatim>\<open>other_identifiers\<close>.\<close>

definition other_record :: "py \<times> py \<Rightarrow> py" where
  "other_record p = PDict [(''value'', fst p), (''source'', snd p)]"

text \<open>
  The evidence each rule looks for, stated on the entries without the loops. An entry
  gives a piece of evidence when the test the rule applies to it is evaluated without an
  exception and is true. The entries of an attribute are its list; an attribute that is
  absent or not a list has none.
\<close>

definition entries_of :: "dict \<Rightarrow> string \<Rightarrow> py list" where
  "entries_of data key = (case map_of data key of Some (PList entries) \<Rightarrow> entries | _ \<Rightarrow> [])"

definition source_contains :: "string \<Rightarrow> py \<Rightarrow> bool" where
  "source_contains lit entry =
     (case py_get entry ''source'' (PStr []) of
        Inr source \<Rightarrow> str_in lit source = Inr True
      | Inl e \<Rightarrow> False)"

definition parsed_from_codemeta :: "py \<Rightarrow> bool" where
  "parsed_from_codemeta entry =
     (py_get entry ''technique'' (PStr []) = Inr (PStr ''code_parser'') \<and>
      source_contains ''codemeta.json'' entry)"

definition carries_value :: "py \<Rightarrow> bool" where
  "carries_value entry = (has_result_value entry = Inr True)"

text \<open>
  p007: a reference publication that the code parser read from codemeta.json; one from
  CITATION.cff; and a CITATION.cff source in one of the five categories.
\<close>

definition codemeta_reference :: "dict \<Rightarrow> bool" where
  "codemeta_reference data =
     list_ex (\<lambda>entry. parsed_from_codemeta entry \<and> carries_value entry)
       (entries_of data ''reference_publication'')"

definition citation_reference :: "dict \<Rightarrow> bool" where
  "citation_reference data =
     list_ex (\<lambda>entry. \<not> parsed_from_codemeta entry \<and> source_contains ''CITATION.cff'' entry \<and>
                      carries_value entry)
       (entries_of data ''reference_publication'')"

definition citation_exists :: "dict \<Rightarrow> bool" where
  "citation_exists data =
     list_ex (\<lambda>category. list_ex (source_contains ''CITATION.cff'') (entries_of data category))
       citation_cff_sources"

text \<open>p009: an entry from a metadata source whose value is a homepage URL.\<close>

definition points_to_homepage :: "py \<Rightarrow> bool" where
  "points_to_homepage entry =
     (case (py_get entry ''technique'' (PStr []), py_get entry ''source'' (PStr [])) of
        (Inr technique, Inr source) \<Rightarrow>
          is_metadata_source technique source = Inr True \<and> carries_value entry \<and>
          (case result_value entry of
             Inr repo_url \<Rightarrow> is_homepage_url_repo repo_url = Inr True
           | Inl e \<Rightarrow> False)
      | _ \<Rightarrow> False)"

definition homepage_found :: "dict \<Rightarrow> bool" where
  "homepage_found data = list_ex points_to_homepage (entries_of data ''code_repository'')"

text \<open>w006: the value of the first codemeta entry that carries one.\<close>

definition codemeta_value :: "py \<Rightarrow> py option" where
  "codemeta_value entry =
     (case (py_get entry ''source'' (PStr []), py_get entry ''technique'' (PStr [])) of
        (Inr source, Inr technique) \<Rightarrow>
          (case (is_codemeta source technique, has_result_value entry, result_value entry) of
             (Inr True, Inr True, Inr v) \<Rightarrow> Some v
           | _ \<Rightarrow> None)
      | _ \<Rightarrow> None)"

definition first_codemeta :: "dict \<Rightarrow> py" where
  "first_codemeta data =
     (case List.map_filter codemeta_value (entries_of data ''identifier'') of
        [] \<Rightarrow> PNone
      | v # _ \<Rightarrow> v)"

text \<open>
  The values of the three flags of p007 in \<^verbatim>\<open>result\<close>, while \<^verbatim>\<open>has_pitfall\<close> is still
  false.
\<close>

definition flags :: "store \<Rightarrow> bool \<Rightarrow> bool \<Rightarrow> bool \<Rightarrow> bool" where
  "flags st from_codemeta from_citation found =
     (field ''has_pitfall'' (result st) = Some (PBool False) \<and>
      field ''codemeta_has_reference'' (result st) = Some (PBool from_codemeta) \<and>
      field ''citation_cff_has_reference'' (result st) = Some (PBool from_citation) \<and>
      field ''citation_cff_exists'' (result st) = Some (PBool found))"

text \<open>
  p009 asks \<^verbatim>\<open>extract_metadata_source_filename\<close> about the source of an entry and the
  formatter about its technique, and about nothing else. Two pairs of helpers agree on
  a record when they answer alike on the source and the technique of every entry of
  \<^verbatim>\<open>code_repository\<close>.
\<close>

definition agree_on_entry ::
    "(py \<Rightarrow> error + py) \<Rightarrow> (py \<Rightarrow> string) \<Rightarrow> (py \<Rightarrow> error + py) \<Rightarrow> (py \<Rightarrow> string) \<Rightarrow>
     py \<Rightarrow> bool" where
  "agree_on_entry source_filename str_of source_filename' str_of' entry =
     ((case py_get entry ''source'' (PStr []) of
         Inr source \<Rightarrow> source_filename source = source_filename' source
       | Inl e \<Rightarrow> True) \<and>
      (case py_get entry ''technique'' (PStr []) of
         Inr technique \<Rightarrow> str_of technique = str_of' technique
       | Inl e \<Rightarrow> True))"

definition agree_on ::
    "(py \<Rightarrow> error + py) \<Rightarrow> (py \<Rightarrow> string) \<Rightarrow> (py \<Rightarrow> error + py) \<Rightarrow> (py \<Rightarrow> string) \<Rightarrow>
     dict \<Rightarrow> bool" where
  "agree_on source_filename str_of source_filename' str_of' data =
     list_all (agree_on_entry source_filename str_of source_filename' str_of')
       (entries_of data ''code_repository'')"

section \<open>Sample records\<close>

text \<open>Records of the shape the harvester writes, used to run the rules.\<close>

definition sample_entry :: "string \<Rightarrow> string \<Rightarrow> string \<Rightarrow> py" where
  "sample_entry source technique v =
     PDict [(''source'', PStr source), (''technique'', PStr technique),
            (''result'', PDict [(''value'', PStr v)])]"

definition rule_sample :: dict where
  "rule_sample =
     [(''reference_publication'', PList
        [sample_entry ''repository/codemeta.json'' ''code_parser''
           ''https://doi.org/10.1000/paper.123'']),
      (''authors'', PStr ''not a list''),
      (''title'', PList [sample_entry ''repository/CITATION.cff'' ''file_exploration'' ''Title'']),
      (''code_repository'', PList
        [sample_entry ''repo/package.json'' ''code_parser'' ''https://github.com/user/repo'',
         sample_entry [] ''code_parser'' ''https://www.example.org/'']),
      (''identifier'', PList
        [sample_entry ''repo/codemeta.json'' ''code_parser'' ''My Project'',
         sample_entry ''README.md'' ''regular_expression'' ''Some Name'',
         sample_entry ''README.md'' ''regular_expression'' ''10.5281/zenodo.1''])]"

definition p007_sample_finding :: dict where
  "p007_sample_finding =
     [(''has_pitfall'', PBool True), (''file_name'', PStr ''test.json''),
      (''codemeta_has_reference'', PBool True),
      (''citation_cff_has_reference'', PBool False),
      (''citation_cff_exists'', PBool True)]"

definition p009_sample_finding :: dict where
  "p009_sample_finding =
     [(''has_pitfall'', PBool True), (''file_name'', PStr ''test.json''),
      (''repository_url'', PStr ''https://www.example.org/''),
      (''source'', PStr ''technique: code_parser''),
      (''metadata_source_file'', PNone), (''is_homepage'', PBool True)]"

definition w006_sample_finding :: dict where
  "w006_sample_finding =
     [(''has_warning'', PBool True), (''file_name'', PStr ''test.json''),
      (''codemeta_identifier'', PStr ''My Project''),
      (''other_identifier'', PStr ''10.5281/zenodo.1''),
      (''codemeta_source'', PStr ''repo/codemeta.json''),
      (''other_source'', PStr ''README.md''),
      (''has_valid_identifier_elsewhere'', PBool True),
      (''other_identifiers'', PList [PDict [(''value'', PStr ''10.5281/zenodo.1''),
                                            (''source'', PStr ''README.md'')]])]"

text \<open>Stand-ins for the two parameters of p009 when a sample is run.\<close>

definition no_source_file :: "py \<Rightarrow> error + py" where
  "no_source_file source = Inr PNone"

definition no_text :: "py \<Rightarrow> string" where
  "no_text v = []"

text \<open>
  A sound record with entries and attributes of wrong type, in which no rule finds its
  evidence: a codemeta reference but no CITATION.cff source, a repository URL and an
  entry without result, a codemeta name but no valid identifier elsewhere.
\<close>

definition unresolved_sample :: dict where
  "unresolved_sample =
     [(''reference_publication'', PList
        [sample_entry ''repository/codemeta.json'' ''code_parser''
           ''https://doi.org/10.1000/paper.123'']),
      (''authors'', PList [sample_entry ''repository/codemeta.json'' ''code_parser'' ''Jane Doe'']),
      (''title'', PStr ''not a list''),
      (''description'', PList []),
      (''license'', PInt 3),
      (''code_repository'', PList
        [sample_entry ''repo/package.json'' ''code_parser'' ''https://github.com/user/repo'',
         PDict [(''source'', PStr ''repo/codemeta.json''), (''technique'', PStr ''code_parser'')],
         PDict [(''technique'', PStr ''code_parser''), (''result'', PDict [])]]),
      (''identifier'', PList
        [sample_entry ''repo/codemeta.json'' ''code_parser'' ''My Project'',
         sample_entry ''README.md'' ''regular_expression'' ''Some Name''])]"

text \<open>The record of the spec's version-mismatch example, and one without releases.\<close>

definition version_sample :: dict where
  "version_sample =
     [(''version'', PList
        [PDict [(''source'', PStr ''repo/package.json''),
                (''result'', PDict [(''value'', PStr ''1.2.3'')])]]),
      (''releases'', PList [PDict [(''tag'', PStr ''v2.0.0'')]])]"

definition version_sample_finding :: "py \<Rightarrow> dict" where
  "version_sample_finding source_file =
     [(''has_pitfall'', PBool True), (''file_name'', PStr ''test_repo.json''),
      (''metadata_version'', PStr ''1.2.3''), (''release_version'', PStr ''2.0.0''),
      (''metadata_source'', PStr ''repo/package.json''),
      (''metadata_source_file'', source_file)]"

definition unreleased_sample :: dict where
  "unreleased_sample =
     [(''version'', PList
        [PDict [(''source'', PStr ''repo/codemeta.json''),
                (''result'', PDict [(''value'', PStr ''1.0.0'')])]])]"

text \<open>Records of \<^verbatim>\<open>test_p016.py\<close>: an API entry followed by metadata entries.\<close>

definition repository_sample :: "(string \<times> string) list \<Rightarrow> dict" where
  "repository_sample metadata =
     [(''code_repository'', PList
        (PDict [(''source'', PStr ''GitHub_API''), (''technique'', PStr ''GitHub_API''),
                (''result'', PDict [(''value'', PStr ''https://github.com/user/repo1'')])]
         # map (\<lambda>(source, url). sample_entry source ''code_parser'' url) metadata))]"

definition divergent_sample :: dict where
  "divergent_sample =
     repository_sample
       [(''repository/codemeta.json'', ''https://github.com/user/repo2''),
        (''repository/codemeta.json'', ''https://github.com/user/repo1.git''),
        (''repository/codemeta.json'', ''https://github.com/user/repo3'')]"

text \<open>Three repositories, one of which triggers the check \<^verbatim>\<open>P001\<close>.\<close>

definition batch_sample :: "(string \<times> bool) list list" where
  "batch_sample =
     [[(''P001'', True), (''P002'', False)],
      [(''P001'', False), (''P002'', False)],
      [(''P001'', False), (''P002'', True)]]"

text \<open>A stand-in for the file-name helper of p001 when a sample is run.\<close>

definition package_file :: "string \<Rightarrow> py" where
  "package_file source = PStr ''package.json''"

text \<open>
  A second pair of stand-ins for the helpers of p009: they differ from the first pair,
  but not on a source or a technique of \<^const>\<open>rule_sample\<close>.
\<close>

definition other_source_file :: "py \<Rightarrow> error + py" where
  "other_source_file source = (if is_str source then Inr PNone else Inl TypeError)"

definition other_text :: "py \<Rightarrow> string" where
  "other_text v = (if is_str v then [] else ''?'')"

section \<open>Rules whose modules are not under src/\<close>

text \<open>
  Modelled from the spec: \<^verbatim>\<open>normalize_version\<close> of \<^verbatim>\<open>p012.py\<close>, which is not under
  \<^verbatim>\<open>src/\<close>. The spec says that it trims surrounding whitespace and strips a leading
  \<^verbatim>\<open>v\<close> or \<^verbatim>\<open>V\<close>; \<^verbatim>\<open>test_p012.py\<close> adds that the whitespace goes first
  (\<^verbatim>\<open>"  v1.2.3  "\<close> gives \<^verbatim>\<open>"1.2.3"\<close>) and that \<^verbatim>\<open>None\<close> and the empty string give
  \<^verbatim>\<open>None\<close>. The result is \<^verbatim>\<open>None\<close> whenever nothing is left of the input, so a
  whitespace-only string is treated as the empty string is.
\<close>

definition strip_v :: "string \<Rightarrow> string" where
  "strip_v s =
     (case s of [] \<Rightarrow> [] | c # cs \<Rightarrow> if c = CHR ''v'' \<or> c = CHR ''V'' then cs else s)"

definition normalize_version :: "string option \<Rightarrow> string option" where
  "normalize_version version =
     (case version of
        None \<Rightarrow> None
      | Some s \<Rightarrow>
          (let normalized = strip_v (strip s)
           in if normalized = [] then None else Some normalized))"

text \<open>
  Modelled from the spec: the Provenance Resolver \<^verbatim>\<open>find(record, attribute, predicate)\<close>
  of section 4.1, whose module is not under \<^verbatim>\<open>src/\<close>. It scans the attribute's entry
  list in extraction order and gives the first entry that satisfies the predicate, and
  nothing when the attribute is absent, not a list, or no entry matches.
\<close>

definition find_entry :: "dict \<Rightarrow> string \<Rightarrow> (py \<Rightarrow> bool) \<Rightarrow> py option" where
  "find_entry record attribute predicate =
     (case map_of record attribute of
        Some (PList entries) \<Rightarrow> List.find predicate entries
      | _ \<Rightarrow> None)"

text \<open>
  Modelled from the spec: the accessors of section 9 for an ExtractionEntry. Absence is
  a normal value: the string under a key is \<open>None\<close> when the entry is no dictionary, the
  key is missing or the value is no string. The source of an entry is its \<^verbatim>\<open>source\<close>
  or, failing that, the nested \<^verbatim>\<open>result.source\<close>; a release tag is \<^verbatim>\<open>tag\<close> or the nested
  \<^verbatim>\<open>result.tag\<close> (both shapes occur in \<^verbatim>\<open>test_p001.py\<close>).
\<close>

definition entry_string :: "py \<Rightarrow> string \<Rightarrow> string option" where
  "entry_string entry key =
     (case entry of
        PDict kvs \<Rightarrow> (case map_of kvs key of Some (PStr s) \<Rightarrow> Some s | _ \<Rightarrow> None)
      | _ \<Rightarrow> None)"

definition entry_result :: "py \<Rightarrow> py" where
  "entry_result entry =
     (case entry of
        PDict kvs \<Rightarrow> (case map_of kvs ''result'' of Some r \<Rightarrow> r | None \<Rightarrow> PNone)
      | _ \<Rightarrow> PNone)"

definition entry_source :: "py \<Rightarrow> string option" where
  "entry_source entry =
     (case entry_string entry ''source'' of
        Some s \<Rightarrow> Some s
      | None \<Rightarrow> entry_string (entry_result entry) ''source'')"

definition entry_value :: "py \<Rightarrow> string option" where
  "entry_value entry = entry_string (entry_result entry) ''value''"

definition entry_tag :: "py \<Rightarrow> string option" where
  "entry_tag entry =
     (case entry_string entry ''tag'' of
        Some t \<Rightarrow> Some t
      | None \<Rightarrow> entry_string (entry_result entry) ''tag'')"

text \<open>
  Modelled from the spec: the predicate of section 4.1 for structured metadata. The
  source contains one of the recognised configuration-file names, matched as a
  case-insensitive substring, or the technique is the structured parser's. The names
  are the list \<^const>\<open>metadata_sources\<close> of p009, the set the spec calls shared across
  all rules.
\<close>

definition structured_metadata :: "py \<Rightarrow> bool" where
  "structured_metadata entry =
     ((case entry_source entry of
         Some source \<Rightarrow> list_ex (\<lambda>name. contains (lower name) (lower source)) metadata_sources
       | None \<Rightarrow> False) \<or>
      entry_string entry ''technique'' = Some ''code_parser'')"

text \<open>
  Modelled from the spec: the version-mismatch check of section 4.2
  (\<^verbatim>\<open>detect_version_mismatch\<close> of \<^verbatim>\<open>p001.py\<close>, not under \<^verbatim>\<open>src/\<close>). It resolves a
  version from structured metadata and a tag from the release history, normalises both,
  and reports an issue iff the normalised strings differ and both are non-empty.
  \<^verbatim>\<open>test_p001.py\<close> fixes the Finding: its six keys; the normalised values, recorded when
  both were resolved and \<^verbatim>\<open>None\<close> otherwise; and the source and its file name, set on
  an issue. The file name comes from \<^verbatim>\<open>extract_metadata_source_filename\<close>, which is not
  under \<^verbatim>\<open>src/\<close> either: it is the parameter \<open>source_filename\<close>, a function of the
  source as the test patches it with one.
\<close>

definition metadata_version :: "dict \<Rightarrow> (string \<times> string) option" where
  "metadata_version record =
     (case find_entry record ''version'' structured_metadata of
        None \<Rightarrow> None
      | Some entry \<Rightarrow>
          (case entry_value entry of
             None \<Rightarrow> None
           | Some version \<Rightarrow>
               Some (case entry_source entry of Some s \<Rightarrow> s | None \<Rightarrow> [], version)))"

definition release_tag :: "dict \<Rightarrow> string option" where
  "release_tag record =
     (case find_entry record ''releases'' (\<lambda>entry. entry_tag entry \<noteq> None) of
        None \<Rightarrow> None
      | Some entry \<Rightarrow> entry_tag entry)"

definition nonempty :: "string option \<Rightarrow> bool" where
  "nonempty s = (case s of Some (c # cs) \<Rightarrow> True | _ \<Rightarrow> False)"

definition optional_str :: "string option \<Rightarrow> py" where
  "optional_str s = (case s of Some t \<Rightarrow> PStr t | None \<Rightarrow> PNone)"

definition detect_version_mismatch :: "(string \<Rightarrow> py) \<Rightarrow> dict \<Rightarrow> string \<Rightarrow> dict" where
  "detect_version_mismatch source_filename record file_name =
     (case (metadata_version record, release_tag record) of
        (Some (source, version), Some tag) \<Rightarrow>
          (let metadata_ver = normalize_version (Some version);
               release_ver = normalize_version (Some tag);
               issue = (metadata_ver \<noteq> release_ver \<and> nonempty metadata_ver \<and>
                        nonempty release_ver)
           in [(''has_pitfall'', PBool issue),
               (''file_name'', PStr file_name),
               (''metadata_version'', optional_str metadata_ver),
               (''release_version'', optional_str release_ver),
               (''metadata_source'', if issue then PStr source else PNone),
               (''metadata_source_file'', if issue then source_filename source else PNone)])
      | _ \<Rightarrow>
          [(''has_pitfall'', PBool False),
           (''file_name'', PStr file_name),
           (''metadata_version'', PNone),
           (''release_version'', PNone),
           (''metadata_source'', PNone),
           (''metadata_source_file'', PNone)])"

definition p001_fields :: "string list" where
  "p001_fields = [''has_pitfall'', ''file_name'', ''metadata_version'', ''release_version'',
      ''metadata_source'', ''metadata_source_file'']"

text \<open>
  Modelled from the spec: \<^verbatim>\<open>normalize_repository_url\<close> of \<^verbatim>\<open>p016.py\<close>, which is not
  under \<^verbatim>\<open>src/\<close>. The spec names the steps: strip the \<^verbatim>\<open>.git\<close> suffix and the trailing
  slash, strip the \<^verbatim>\<open>git+\<close> prefix, rewrite the SSH form to HTTPS, lowercase.
  \<^verbatim>\<open>test_p016.py\<close> fixes their order (lowercase first, the slash before the suffix)
  and the result on \<^verbatim>\<open>None\<close>, the empty string.
\<close>

definition strip_trailing_slash :: "string \<Rightarrow> string" where
  "strip_trailing_slash s = (if s \<noteq> [] \<and> last s = CHR ''/'' then butlast s else s)"

definition strip_git_suffix :: "string \<Rightarrow> string" where
  "strip_git_suffix s =
     (if drop (length s - 4) s = ''.git'' then take (length s - 4) s else s)"

definition strip_git_plus :: "string \<Rightarrow> string" where
  "strip_git_plus s = (if take 4 s = ''git+'' then drop 4 s else s)"

definition ssh_to_https :: "string \<Rightarrow> string" where
  "ssh_to_https s =
     (if take 4 s = ''git@''
      then ''https://'' @ takeWhile (\<lambda>c. c \<noteq> CHR '':'') (drop 4 s) @
           (case dropWhile (\<lambda>c. c \<noteq> CHR '':'') (drop 4 s) of
              [] \<Rightarrow> []
            | c # path \<Rightarrow> CHR ''/'' # path)
      else s)"

definition normalize_repository_url :: "string option \<Rightarrow> string" where
  "normalize_repository_url url =
     (case url of
        None \<Rightarrow> []
      | Some u \<Rightarrow>
          ssh_to_https (strip_git_plus (strip_git_suffix (strip_trailing_slash (lower u)))))"

text \<open>
  Modelled from the spec: the divergent-repository check of section 4.2
  (\<^verbatim>\<open>detect_different_repository_pitfall\<close> of \<^verbatim>\<open>p016.py\<close>, not under \<^verbatim>\<open>src/\<close>). It
  resolves the repository URL of the API-derived entry and the repository URLs of the
  metadata entries, normalises them, reports an issue iff some metadata URL differs from
  the API URL, and collects all that differ. \<^verbatim>\<open>test_p016.py\<close>, which is under
  \<^verbatim>\<open>src/\<close>, fixes three points the spec leaves open or states otherwise: the API entry
  is the one with technique \<^verbatim>\<open>GitHub_API\<close>; the metadata entries are those whose source
  names \<^verbatim>\<open>codemeta.json\<close> in any case, while an entry from \<^verbatim>\<open>package.json\<close> is ignored
  (\<^verbatim>\<open>test_non_codemeta_metadata_ignored\<close>); and \<^verbatim>\<open>github_api_url\<close> is \<^verbatim>\<open>None\<close> unless
  an issue is reported.
\<close>

definition api_url :: "dict \<Rightarrow> string option" where
  "api_url record =
     (case find_entry record ''code_repository''
             (\<lambda>entry. entry_string entry ''technique'' = Some ''GitHub_API'' \<and>
                      entry_value entry \<noteq> None) of
        None \<Rightarrow> None
      | Some entry \<Rightarrow> entry_value entry)"

definition codemeta_entry :: "py \<Rightarrow> bool" where
  "codemeta_entry entry =
     (case entry_source entry of
        Some source \<Rightarrow> contains ''codemeta.json'' (lower source)
      | None \<Rightarrow> False)"

definition metadata_urls :: "dict \<Rightarrow> string list" where
  "metadata_urls record =
     (case map_of record ''code_repository'' of
        Some (PList entries) \<Rightarrow>
          List.map_filter (\<lambda>entry. if codemeta_entry entry then entry_value entry else None)
            entries
      | _ \<Rightarrow> [])"

definition different_urls :: "dict \<Rightarrow> string list" where
  "different_urls record =
     (case api_url record of
        None \<Rightarrow> []
      | Some api \<Rightarrow>
          filter (\<lambda>url. normalize_repository_url (Some url) \<noteq>
                        normalize_repository_url (Some api))
            (metadata_urls record))"

definition detect_different_repository_pitfall :: "dict \<Rightarrow> string \<Rightarrow> dict" where
  "detect_different_repository_pitfall record file_name =
     (let different = different_urls record;
          issue = (different \<noteq> [])
      in [(''has_pitfall'', PBool issue),
          (''file_name'', PStr file_name),
          (''github_api_url'', if issue then optional_str (api_url record) else PNone),
          (''metadata_urls'', PList (map PStr (metadata_urls record))),
          (''different_urls'', PList (map PStr different))])"

text \<open>
  Modelled from the spec: the URL shape test of the Accessibility Prober, section 4.3
  (\<^verbatim>\<open>is_valid_url_format\<close> of \<^verbatim>\<open>p008.py\<close> and \<^verbatim>\<open>p015.py\<close>, not under \<^verbatim>\<open>src/\<close>): a URL
  must have a scheme and a non-empty host-like component. The scheme is the text before
  the first colon, made of letters, digits, \<^verbatim>\<open>+\<close>, \<^verbatim>\<open>-\<close> and \<^verbatim>\<open>.\<close>; the host is what follows
  \<^verbatim>\<open>://\<close> up to the next \<^verbatim>\<open>/\<close>, \<^verbatim>\<open>?\<close> or \<^verbatim>\<open>#\<close>.
\<close>

definition scheme_chars :: "char list" where
  "scheme_chars = upper_letters @ lower_letters @ ''0123456789+-.''"

definition is_valid_url_format :: "string \<Rightarrow> bool" where
  "is_valid_url_format url =
     (let scheme = takeWhile (\<lambda>c. c \<noteq> CHR '':'') url;
          rest = dropWhile (\<lambda>c. c \<noteq> CHR '':'') url
      in scheme \<noteq> [] \<and> list_all (\<lambda>c. c \<in> set scheme_chars) scheme \<and>
         take 3 rest = ''://'' \<and>
         takeWhile (\<lambda>c. c \<notin> set ''/?#'') (drop 3 rest) \<noteq> [])"

text \<open>
  What the network gives back for a request: a response with its status code, or a
  failure (timeout, connection refused, DNS failure) with its message. The network is
  an argument of the probe, a function from the URL to the reply.
\<close>

datatype reply = Status nat | Failure string

definition probe_result :: "bool \<Rightarrow> py \<Rightarrow> py \<Rightarrow> dict" where
  "probe_result accessible status_code err =
     [(''is_accessible'', PBool accessible), (''status_code'', status_code), (''error'', err)]"

text \<open>
  Modelled from the spec: the probe of section 4.3. The URL shape is validated first; an
  invalid URL gives \<^verbatim>\<open>is_accessible = False\<close> and the error \<^verbatim>\<open>"Invalid URL format"\<close>
  without a request. Otherwise the reply is classified: a status code by the table
  \<open>accessible\<close>, with the code recorded, and a failure as inaccessible with its message
  and no status code.
\<close>

definition probe :: "(nat \<Rightarrow> bool) \<Rightarrow> (string \<Rightarrow> reply) \<Rightarrow> string \<Rightarrow> dict" where
  "probe accessible network url =
     (if \<not> is_valid_url_format url
      then probe_result False PNone (PStr ''Invalid URL format'')
      else case network url of
             Status code \<Rightarrow> probe_result (accessible code) (PInt (int code)) PNone
           | Failure message \<Rightarrow> probe_result False PNone (PStr message))"

text \<open>
  Modelled from the spec: \<^verbatim>\<open>check_url_status\<close> of \<^verbatim>\<open>p008.py\<close> (not under \<^verbatim>\<open>src/\<close>) with
  the table of section 4.3: 2xx and 3xx are accessible, everything else is not.
\<close>

definition check_url_status :: "(string \<Rightarrow> reply) \<Rightarrow> string \<Rightarrow> dict" where
  "check_url_status = probe (\<lambda>code. 200 \<le> code \<and> code < 400)"

text \<open>
  Modelled from the spec: \<^verbatim>\<open>check_ci_url_status\<close> of \<^verbatim>\<open>p015.py\<close> (not under \<^verbatim>\<open>src/\<close>).
  \<^verbatim>\<open>test_p015.py\<close>, which is under \<^verbatim>\<open>src/\<close>, fixes the table where it differs from section
  4.3: 200, 201, 204, 299, 301 and 302 are accessible, 300 is not, nor are 4xx and 5xx.
  Neither the spec's table, which the test contradicts at 300, nor the test decides the
  redirect codes from 303 on; their classification is the parameter \<open>other_redirect\<close>.
\<close>

definition check_ci_url_status ::
    "(nat \<Rightarrow> bool) \<Rightarrow> (string \<Rightarrow> reply) \<Rightarrow> string \<Rightarrow> dict" where
  "check_ci_url_status other_redirect =
     probe (\<lambda>code. (200 \<le> code \<and> code < 300) \<or> code = 301 \<or> code = 302 \<or>
                   (303 \<le> code \<and> code < 400 \<and> other_redirect code))"

text \<open>
  Modelled from the spec: the aggregate of the Batch Evaluator, section 4.4 (its module
  is not under \<^verbatim>\<open>src/\<close>). For a check id, \<^verbatim>\<open>count_triggered\<close> is the number of
  repositories whose Finding for that check has an issue, and the percentage is
  \<^verbatim>\<open>count_triggered / total_repos * 100\<close> rounded to two decimals. The percentage is an
  exact decimal here, a multiple of 1/100; a tie is rounded up. A batch without
  repositories has no aggregate.
\<close>

definition percentage :: "nat \<Rightarrow> nat \<Rightarrow> rat" where
  "percentage count_triggered total_repos =
     of_int (round (of_nat count_triggered / of_nat total_repos * 100 * 100 :: rat)) / 100"

definition count_triggered :: "string \<Rightarrow> (string \<times> bool) list list \<Rightarrow> nat" where
  "count_triggered check_id per_repo =
     length (filter (\<lambda>findings. map_of findings check_id = Some True) per_repo)"

definition aggregate_percentage :: "string \<Rightarrow> (string \<times> bool) list list \<Rightarrow> rat option" where
  "aggregate_percentage check_id per_repo =
     (if per_repo = [] then None
      else Some (percentage (count_triggered check_id per_repo) (length per_repo)))"

section \<open>Exceptions and sequencing\<close>

lemma bind_r_Inr: "bind_r m f = Inr y \<longleftrightarrow> (\<exists>x. m = Inr x \<and> f x = Inr y)"
  by (cases m) (simp_all add: bind_r_def)

lemma bind_r_simps [simp]: "bind_r (Inr x) f = f x" "bind_r (Inl e) f = Inl e"
  by (simp_all add: bind_r_def)

lemma set_result_data [simp]: "somef_data (set_result key v st) = somef_data st"
  by (simp add: set_result_def)

lemma set_result_fields:
  "key \<in> set (map fst (result st)) \<Longrightarrow>
   map fst (result (set_result key v st)) = map fst (result st)"
  by (simp add: set_result_def update_keys)

lemma p007_inv_set:
  "p007_inv data st \<Longrightarrow> key \<in> set p007_fields \<Longrightarrow> p007_inv data (set_result key v st)"
  by (simp add: p007_inv_def set_result_fields)

lemma for_each_invariant:
  assumes "for_each body xs st = Inr st'" and "I st"
    and "\<And>x s s'. x \<in> set xs \<Longrightarrow> I s \<Longrightarrow> body x s = Inr s' \<Longrightarrow> I s'"
  shows "I st'"
  using assms
proof (induction xs arbitrary: st)
  case Nil
  then show ?case by simp
next
  case (Cons x xs)
  from Cons.prems(1) obtain s1 where s1: "body x st = Inr s1" "for_each body xs s1 = Inr st'"
    by (auto simp: bind_r_Inr)
  have "I s1" using Cons.prems(2,3) s1(1) by (meson list.set_intros(1))
  then show ?case using Cons.IH [OF s1(2)] Cons.prems(3) by (meson list.set_intros(2))
qed

lemma for_each_returns:
  assumes "I st"
    and "\<And>x s. x \<in> set xs \<Longrightarrow> I s \<Longrightarrow> \<exists>s'. body x s = Inr s' \<and> I s'"
  shows "\<exists>st'. for_each body xs st = Inr st' \<and> I st'"
  using assms
proof (induction xs arbitrary: st)
  case Nil
  then show ?case by simp
next
  case (Cons x xs)
  from Cons.prems obtain s1 where s1: "body x st = Inr s1" "I s1"
    by (meson list.set_intros(1))
  from Cons.IH [OF s1(2)] Cons.prems(2) obtain st' where "for_each body xs s1 = Inr st'" "I st'"
    by (meson list.set_intros(2))
  then show ?case using s1 by simp
qed

lemma reference_entry_inv:
  "reference_entry entry st = Inr st' \<Longrightarrow> p007_inv data st \<Longrightarrow> p007_inv data st'"
  by (auto simp: reference_entry_def bind_r_Inr p007_inv_set p007_fields_def split: if_splits)

lemma sound_entry_get:
  "sound_entry entry \<Longrightarrow> \<exists>s. py_get entry ''source'' (PStr []) = Inr (PStr s)"
  by (auto simp: sound_entry_def split: py.splits option.splits elim: is_str.elims)

lemma sound_entry_technique:
  "sound_entry entry \<Longrightarrow> \<exists>t. py_get entry ''technique'' (PStr []) = Inr t"
  by (auto simp: sound_entry_def split: py.splits)

lemma sound_entry_has_result_value:
  "sound_entry entry \<Longrightarrow> \<exists>b. has_result_value entry = Inr b"
  by (auto simp: sound_entry_def has_result_value_def map_of_eq_None_iff
      split: py.splits option.splits elim!: is_dict.elims)

lemma reference_entry_returns:
  "sound_entry entry \<Longrightarrow> \<exists>st'. reference_entry entry st = Inr st'"
  using sound_entry_get [of entry] sound_entry_technique [of entry]
    sound_entry_has_result_value [of entry]
  by (auto simp: reference_entry_def)

lemma scan_reference_publication_inv:
  "scan_reference_publication st = Inr st' \<Longrightarrow> p007_inv data st \<Longrightarrow> p007_inv data st'"
  by (auto simp: scan_reference_publication_def split: option.splits py.splits
           elim: for_each_invariant [where I = "p007_inv data"] reference_entry_inv)

lemma scan_category_inv:
  "scan_category entries st = Inr st' \<Longrightarrow> p007_inv data st \<Longrightarrow> p007_inv data st'"
  by (induction entries)
     (auto simp: bind_r_Inr p007_inv_set p007_fields_def split: if_splits)

lemma scan_categories_inv:
  "scan_categories categories st = Inr st' \<Longrightarrow> p007_inv data st \<Longrightarrow> p007_inv data st'"
proof (induction categories arbitrary: st)
  case Nil
  then show ?case by simp
next
  case (Cons category categories)
  from Cons.prems(1) obtain st1 found where
    st1: "(case map_of (somef_data st) category of
             Some (PList entries) \<Rightarrow> scan_category entries st
           | _ \<Rightarrow> Inr st) = Inr st1"
    and rest: "(if truthy found then Inr st1 else scan_categories categories st1) = Inr st'"
    by (auto simp: bind_r_Inr)
  from st1 Cons.prems(2) have "p007_inv data st1"
    by (auto split: option.splits py.splits dest: scan_category_inv)
  with rest Cons.IH show ?case
    by (auto split: if_splits)
qed

lemma conclude_p007_inv:
  "conclude_p007 st = Inr st' \<Longrightarrow> p007_inv data st \<Longrightarrow> p007_inv data st'"
  by (auto simp: conclude_p007_def bind_r_Inr p007_inv_set p007_fields_def split: if_splits)

lemma p007_body_inv: "p007_body data file_name = Inr st \<Longrightarrow> p007_inv data st"
proof -
  assume "p007_body data file_name = Inr st"
  then obtain st1 st2 where
    "scan_reference_publication \<lparr>somef_data = data, result = p007_result file_name\<rparr> = Inr st1"
    "scan_categories citation_cff_sources st1 = Inr st2" "conclude_p007 st2 = Inr st"
    by (auto simp: p007_body_def bind_r_Inr)
  moreover have "p007_inv data \<lparr>somef_data = data, result = p007_result file_name\<rparr>"
    by (simp add: p007_inv_def p007_result_def p007_fields_def)
  ultimately show ?thesis
    by (blast intro: conclude_p007_inv scan_categories_inv scan_reference_publication_inv)
qed

lemma get_result_returns:
  "p007_inv data st \<Longrightarrow> key \<in> set p007_fields \<Longrightarrow> \<exists>v. get_result key st = Inr v"
proof -
  assume "p007_inv data st" "key \<in> set p007_fields"
  then have "key \<in> fst ` set (result st)" by (simp add: p007_inv_def flip: set_map)
  then obtain v where "map_of (result st) key = Some v"
    by (meson map_of_eq_None_iff not_Some_eq)
  then show ?thesis by (simp add: get_result_def)
qed

lemma scan_reference_publication_returns:
  "sound_attribute (somef_data st) ''reference_publication'' \<Longrightarrow>
   \<exists>st'. scan_reference_publication st = Inr st'"
proof (cases "map_of (somef_data st) ''reference_publication''")
  case None
  then show ?thesis by (simp add: scan_reference_publication_def)
next
  case (Some v)
  assume sound: "sound_attribute (somef_data st) ''reference_publication''"
  show ?thesis
  proof (cases v)
    case (PList entries)
    with Some sound have "\<forall>e \<in> set entries. sound_entry e"
      by (simp add: sound_attribute_def list_all_iff)
    then have "\<exists>st'. for_each reference_entry entries st = Inr st' \<and> True"
      by (intro for_each_returns [where I = "\<lambda>_. True"]) (auto dest: reference_entry_returns)
    with Some PList show ?thesis by (simp add: scan_reference_publication_def)
  qed (use Some in \<open>simp_all add: scan_reference_publication_def\<close>)
qed

lemma scan_category_returns:
  "list_all sound_entry entries \<Longrightarrow> \<exists>st'. scan_category entries st = Inr st'"
proof (induction entries)
  case Nil
  then show ?case by simp
next
  case (Cons entry entries)
  then obtain s where "py_get entry ''source'' (PStr []) = Inr (PStr s)"
    using sound_entry_get by auto
  with Cons show ?case by auto
qed

lemma scan_categories_returns:
  "list_all (sound_attribute (somef_data st)) categories \<Longrightarrow> p007_inv data st \<Longrightarrow>
   \<exists>st'. scan_categories categories st = Inr st'"
proof (induction categories arbitrary: st)
  case Nil
  then show ?case by simp
next
  case (Cons category categories)
  let ?scan = "case map_of (somef_data st) category of
                 Some (PList entries) \<Rightarrow> scan_category entries st
               | _ \<Rightarrow> Inr st"
  from Cons.prems(1) have "\<exists>st1. ?scan = Inr st1"
    by (auto simp: sound_attribute_def split: option.splits py.splits
             intro: scan_category_returns)
  then obtain st1 where st1: "?scan = Inr st1" by blast
  with Cons.prems(2) have inv1: "p007_inv data st1"
    by (auto split: option.splits py.splits dest: scan_category_inv)
  then obtain found where found: "get_result ''citation_cff_exists'' st1 = Inr found"
    using get_result_returns [of data st1 "''citation_cff_exists''"]
    by (auto simp: p007_fields_def)
  have "somef_data st1 = somef_data st"
    using inv1 Cons.prems(2) by (simp add: p007_inv_def)
  with Cons.IH [of st1] Cons.prems(1) inv1
  obtain st' where "scan_categories categories st1 = Inr st'" by auto
  with st1 found show ?case by simp
qed

lemma conclude_p007_returns:
  "p007_inv data st \<Longrightarrow> \<exists>st'. conclude_p007 st = Inr st'"
  using get_result_returns [of data st "''codemeta_has_reference''"]
    get_result_returns [of data st "''citation_cff_exists''"]
    get_result_returns [of data st "''citation_cff_has_reference''"]
  by (auto simp: conclude_p007_def p007_fields_def)

lemma p007_body_returns:
  assumes "p007_sound data"
  shows "\<exists>st. p007_body data file_name = Inr st"
proof -
  let ?st0 = "\<lparr>somef_data = data, result = p007_result file_name\<rparr>"
  have inv0: "p007_inv data ?st0"
    by (simp add: p007_inv_def p007_result_def p007_fields_def)
  from assms obtain st1 where st1: "scan_reference_publication ?st0 = Inr st1"
    using scan_reference_publication_returns [of ?st0] by (auto simp: p007_sound_def)
  have inv1: "p007_inv data st1"
    by (rule scan_reference_publication_inv [OF st1 inv0])
  then have "somef_data st1 = data" by (simp add: p007_inv_def)
  with assms inv1 obtain st2 where st2: "scan_categories citation_cff_sources st1 = Inr st2"
    using scan_categories_returns [of st1 citation_cff_sources data]
    by (auto simp: p007_sound_def)
  have "p007_inv data st2" by (rule scan_categories_inv [OF st2 inv1])
  then obtain st where "conclude_p007 st2 = Inr st"
    using conclude_p007_returns by blast
  with st1 st2 show ?thesis by (simp add: p007_body_def)
qed

lemma field_set_result:
  "field key (result (set_result key' v st)) =
     (if key = key' then Some v else field key (result st))"
  by (simp add: field_def set_result_def update_conv)

lemma reference_entry_eq:
  assumes "reference_entry entry st = Inr st'"
  shows "st' =
     (if parsed_from_codemeta entry \<and> carries_value entry
      then set_result ''codemeta_has_reference'' (PBool True) st
      else if \<not> parsed_from_codemeta entry \<and> source_contains ''CITATION.cff'' entry \<and>
              carries_value entry
      then set_result ''citation_cff_has_reference'' (PBool True) st
      else st)"
proof -
  from assms obtain source technique from_codemeta where
    get: "py_get entry ''source'' (PStr []) = Inr source"
         "py_get entry ''technique'' (PStr []) = Inr technique"
    and cm: "(if technique = PStr ''code_parser'' then str_in ''codemeta.json'' source
              else Inr False) = Inr from_codemeta"
    and rest: "(if from_codemeta
       then bind_r (has_result_value entry) (\<lambda>has_value.
              Inr (if has_value then set_result ''codemeta_has_reference'' (PBool True) st
                   else st))
       else bind_r (str_in ''CITATION.cff'' source) (\<lambda>from_citation.
              if from_citation
              then bind_r (has_result_value entry) (\<lambda>has_value.
                     Inr (if has_value
                          then set_result ''citation_cff_has_reference'' (PBool True) st
                          else st))
              else Inr st)) = Inr st'"
    unfolding reference_entry_def bind_r_Inr by blast
  from get cm have parsed: "parsed_from_codemeta entry = from_codemeta"
    by (auto simp: parsed_from_codemeta_def source_contains_def split: if_splits)
  show ?thesis
  proof (cases from_codemeta)
    case True
    with rest obtain has_value where "has_result_value entry = Inr has_value"
      and "st' = (if has_value then set_result ''codemeta_has_reference'' (PBool True) st else st)"
      by (auto simp: bind_r_Inr)
    with True parsed show ?thesis by (auto simp: carries_value_def)
  next
    case False
    with rest obtain from_citation where cit: "str_in ''CITATION.cff'' source = Inr from_citation"
      and rest2: "(if from_citation
              then bind_r (has_result_value entry) (\<lambda>has_value.
                     Inr (if has_value
                          then set_result ''citation_cff_has_reference'' (PBool True) st
                          else st))
              else Inr st) = Inr st'"
      by (auto simp: bind_r_Inr)
    from cit get have sc: "source_contains ''CITATION.cff'' entry = from_citation"
      by (auto simp: source_contains_def)
    show ?thesis
    proof (cases from_citation)
      case no: False
      with rest2 False parsed sc show ?thesis by simp
    next
      case True
      with rest2 obtain has_value where "has_result_value entry = Inr has_value"
        and "st' = (if has_value then set_result ''citation_cff_has_reference'' (PBool True) st
                    else st)"
        by (auto simp: bind_r_Inr)
      with True False parsed sc show ?thesis by (auto simp: carries_value_def)
    qed
  qed
qed

lemma reference_loop_flags:
  "for_each reference_entry entries st = Inr st' \<Longrightarrow> flags st a b c \<Longrightarrow>
   flags st'
     (a \<or> list_ex (\<lambda>entry. parsed_from_codemeta entry \<and> carries_value entry) entries)
     (b \<or> list_ex (\<lambda>entry. \<not> parsed_from_codemeta entry \<and>
                           source_contains ''CITATION.cff'' entry \<and> carries_value entry) entries)
     c"
proof (induction entries arbitrary: st a b)
  case Nil
  then show ?case by simp
next
  case (Cons entry entries)
  from Cons.prems(1) obtain st1 where step: "reference_entry entry st = Inr st1"
    and rest: "for_each reference_entry entries st1 = Inr st'"
    by (auto simp: bind_r_Inr)
  let ?x = "parsed_from_codemeta entry \<and> carries_value entry"
  let ?y = "\<not> parsed_from_codemeta entry \<and> source_contains ''CITATION.cff'' entry \<and>
            carries_value entry"
  from reference_entry_eq [OF step] Cons.prems(2)
  have "flags st1 (a \<or> ?x) (b \<or> ?y) c"
    by (auto simp: flags_def field_set_result)
  from Cons.IH [OF rest this] show ?case by (simp add: disj_ac)
qed


lemma scan_category_eq:
  "scan_category entries st = Inr st' \<Longrightarrow>
   st' = (if list_ex (source_contains ''CITATION.cff'') entries
          then set_result ''citation_cff_exists'' (PBool True) st else st)"
proof (induction entries)
  case Nil
  then show ?case by simp
next
  case (Cons entry entries)
  from Cons.prems obtain source from_citation where
    get: "py_get entry ''source'' (PStr []) = Inr source"
    and cit: "str_in ''CITATION.cff'' source = Inr from_citation"
    and rest: "(if from_citation then Inr (set_result ''citation_cff_exists'' (PBool True) st)
                else scan_category entries st) = Inr st'"
    by (auto simp: bind_r_Inr)
  from get cit have "source_contains ''CITATION.cff'' entry = from_citation"
    by (auto simp: source_contains_def)
  with rest Cons.IH show ?case by (cases from_citation) auto
qed

lemma scan_categories_flags:
  "scan_categories categories st = Inr st' \<Longrightarrow> flags st a b False \<Longrightarrow>
   flags st' a b
     (list_ex (\<lambda>category.
        list_ex (source_contains ''CITATION.cff'') (entries_of (somef_data st) category))
        categories)"
proof (induction categories arbitrary: st)
  case Nil
  then show ?case by simp
next
  case (Cons category categories)
  let ?hit = "list_ex (source_contains ''CITATION.cff'') (entries_of (somef_data st) category)"
  from Cons.prems(1) obtain st1 found where
    st1: "(case map_of (somef_data st) category of
             Some (PList entries) \<Rightarrow> scan_category entries st
           | _ \<Rightarrow> Inr st) = Inr st1"
    and found: "get_result ''citation_cff_exists'' st1 = Inr found"
    and rest: "(if truthy found then Inr st1 else scan_categories categories st1) = Inr st'"
    by (auto simp: bind_r_Inr)
  from st1 have eq: "st1 = (if ?hit then set_result ''citation_cff_exists'' (PBool True) st else st)"
    by (auto simp: entries_of_def split: option.splits py.splits dest: scan_category_eq)
  show ?case
  proof (cases ?hit)
    case True
    with eq Cons.prems(2) have f1: "flags st1 a b True"
      by (auto simp: flags_def field_set_result)
    with found have "found = PBool True"
      by (auto simp: flags_def field_def get_result_def split: option.splits)
    with rest f1 True show ?thesis by simp
  next
    case False
    with eq have same: "st1 = st" by simp
    with found Cons.prems(2) have "found = PBool False"
      by (auto simp: flags_def field_def get_result_def split: option.splits)
    with rest same have "scan_categories categories st = Inr st'" by simp
    from Cons.IH [OF this Cons.prems(2)] False show ?thesis by simp
  qed
qed

lemma conclude_p007_flags:
  "conclude_p007 st = Inr st' \<Longrightarrow> flags st a b c \<Longrightarrow>
   field ''has_pitfall'' (result st') = Some (PBool (a \<and> c \<and> \<not> b))"
  by (auto simp: conclude_p007_def flags_def field_def get_result_def bind_r_Inr
        set_result_def update_conv split: if_splits option.splits)

lemma p007_pitfall:
  assumes "detect_citation_missing_reference_publication_pitfall data file_name = Inr r"
  shows "field ''has_pitfall'' r =
     Some (PBool (codemeta_reference data \<and> citation_exists data \<and> \<not> citation_reference data))"
proof -
  let ?st0 = "\<lparr>somef_data = data, result = p007_result file_name\<rparr>"
  from assms obtain st1 st2 st where
    s1: "scan_reference_publication ?st0 = Inr st1"
    and s2: "scan_categories citation_cff_sources st1 = Inr st2"
    and s3: "conclude_p007 st2 = Inr st" and r: "r = result st"
    by (auto simp: detect_citation_missing_reference_publication_pitfall_def p007_body_def
          bind_r_Inr)
  have f0: "flags ?st0 False False False"
    by (simp add: flags_def field_def p007_result_def)
  have inv0: "p007_inv data ?st0"
    by (simp add: p007_inv_def p007_result_def p007_fields_def)
  have f1: "flags st1 (codemeta_reference data) (citation_reference data) False"
  proof (cases "map_of data ''reference_publication''")
    case None
    with s1 f0 show ?thesis
      by (simp add: scan_reference_publication_def codemeta_reference_def
            citation_reference_def entries_of_def)
  next
    case (Some v)
    show ?thesis
    proof (cases v)
      case (PList entries)
      with Some s1 have "for_each reference_entry entries ?st0 = Inr st1"
        by (simp add: scan_reference_publication_def)
      from reference_loop_flags [OF this f0] Some PList show ?thesis
        by (simp add: codemeta_reference_def citation_reference_def entries_of_def)
    qed (use Some s1 f0 in \<open>simp_all add: scan_reference_publication_def codemeta_reference_def
            citation_reference_def entries_of_def\<close>)
  qed
  have "somef_data st1 = data"
    using scan_reference_publication_inv [OF s1 inv0] by (simp add: p007_inv_def)
  with scan_categories_flags [OF s2 f1]
  have "flags st2 (codemeta_reference data) (citation_reference data) (citation_exists data)"
    by (simp add: citation_exists_def)
  from conclude_p007_flags [OF s3 this] r show ?thesis by simp
qed

lemma p009_inv_set:
  "p009_inv data st \<Longrightarrow> key \<in> set p009_fields \<Longrightarrow> p009_inv data (set_result key v st)"
  by (simp add: p009_inv_def set_result_fields)

lemma scan_repositories_inv:
  "scan_repositories source_filename str_of entries st = Inr st' \<Longrightarrow> p009_inv data st \<Longrightarrow>
   p009_inv data st'"
  by (induction entries)
     (auto simp: bind_r_Inr p009_inv_set p009_fields_def split: if_splits)

lemma p009_body_inv:
  "p009_body source_filename str_of data file_name = Inr st \<Longrightarrow> p009_inv data st"
proof -
  assume body: "p009_body source_filename str_of data file_name = Inr st"
  let ?st0 = "\<lparr>somef_data = data, result = p009_result file_name\<rparr>"
  have inv0: "p009_inv data ?st0"
    by (simp add: p009_inv_def p009_result_def p009_fields_def)
  from body have "st = ?st0 \<or>
      (\<exists>entries. scan_repositories source_filename str_of entries ?st0 = Inr st)"
    by (auto simp: p009_body_def Let_def split: option.splits py.splits)
  with inv0 show ?thesis by (auto dest: scan_repositories_inv)
qed

lemma is_homepage_url_repo_returns:
  "is_str v \<or> \<not> truthy v \<Longrightarrow> \<exists>b. is_homepage_url_repo v = Inr b"
  by (cases v)
     (auto simp: is_homepage_url_repo_def is_repository_url_def split: bool.splits)

lemma is_metadata_source_returns:
  "\<exists>b. is_metadata_source technique (PStr s) = Inr b"
  by (auto simp: is_metadata_source_def)

lemma str_in_dict: "str_in key (PDict kvs) = Inr True \<Longrightarrow> \<exists>v. map_of kvs key = Some v"
  by (cases "map_of kvs key") (auto simp: map_of_eq_None_iff)

lemma has_result_value_result_value:
  assumes "sound_entry entry" and "has_result_value entry = Inr True"
  shows "\<exists>v. result_value entry = Inr v"
proof -
  from assms(1) obtain kvs where entry: "entry = PDict kvs"
    by (cases entry) (simp_all add: sound_entry_def)
  from assms(2) entry obtain r where r: "map_of kvs ''result'' = Some r"
    and value_in: "str_in ''value'' r = Inr True"
    by (cases "map_of kvs ''result''")
       (auto simp: has_result_value_def bind_r_Inr map_of_eq_None_iff split: if_splits)
  from assms(1) entry r obtain rkvs where "r = PDict rkvs"
    by (cases r) (simp_all add: sound_entry_def)
  with value_in r entry show ?thesis
    using str_in_dict [of "''value''" rkvs] by (auto simp: result_value_def)
qed

lemma scan_repositories_returns:
  assumes "list_all sound_repository_entry entries"
    and "\<forall>s. \<exists>w. source_filename (PStr s) = Inr w"
  shows "\<exists>st'. scan_repositories source_filename str_of entries st = Inr st'"
  using assms(1)
proof (induction entries)
  case Nil
  then show ?case by simp
next
  case (Cons entry entries)
  then have sound: "sound_entry entry"
    and url: "\<And>v. result_value entry = Inr v \<Longrightarrow> is_str v \<or> \<not> truthy v"
    and rest: "\<exists>st'. scan_repositories source_filename str_of entries st = Inr st'"
    by (auto simp: sound_repository_entry_def)
  from sound obtain s technique where get:
    "py_get entry ''source'' (PStr []) = Inr (PStr s)"
    "py_get entry ''technique'' (PStr []) = Inr technique"
    using sound_entry_get sound_entry_technique by blast
  obtain from_metadata where meta: "is_metadata_source technique (PStr s) = Inr from_metadata"
    using is_metadata_source_returns by blast
  from sound obtain has_value where hv: "has_result_value entry = Inr has_value"
    using sound_entry_has_result_value by blast
  show ?case
  proof (cases "from_metadata \<and> has_value")
    case False
    with get meta hv rest show ?thesis by auto
  next
    case True
    with hv have "has_result_value entry = Inr True" by simp
    from has_result_value_result_value [OF sound this]
    obtain repo_url where v: "result_value entry = Inr repo_url" by blast
    with url obtain homepage where hp: "is_homepage_url_repo repo_url = Inr homepage"
      using is_homepage_url_repo_returns by blast
    from assms(2) obtain w where "source_filename (PStr s) = Inr w" by blast
    with get meta hv rest True v hp show ?thesis by auto
  qed
qed

lemma p009_body_returns:
  assumes "p009_sound data" and "\<forall>s. \<exists>w. source_filename (PStr s) = Inr w"
  shows "\<exists>st. p009_body source_filename str_of data file_name = Inr st"
proof (cases "map_of data ''code_repository''")
  case None
  then show ?thesis by (simp add: p009_body_def)
next
  case (Some v)
  show ?thesis
  proof (cases v)
    case (PList entries)
    with Some assms(1) have "list_all sound_repository_entry entries"
      by (simp add: p009_sound_def)
    from scan_repositories_returns [OF this assms(2)] Some PList show ?thesis
      by (simp add: p009_body_def)
  qed (use Some in \<open>simp_all add: p009_body_def\<close>)
qed

lemma scan_repositories_found:
  "scan_repositories source_filename str_of entries st = Inr st' \<Longrightarrow>
   (if list_ex points_to_homepage entries
    then field ''has_pitfall'' (result st') = Some (PBool True)
    else st' = st)"
proof (induction entries)
  case Nil
  then show ?case by simp
next
  case (Cons entry entries)
  from Cons.prems obtain technique source from_metadata where
    get: "py_get entry ''technique'' (PStr []) = Inr technique"
         "py_get entry ''source'' (PStr []) = Inr source"
    and meta: "is_metadata_source technique source = Inr from_metadata"
    by (auto simp: bind_r_Inr)
  show ?case
  proof (cases from_metadata)
    case False
    with get meta have "\<not> points_to_homepage entry" by (simp add: points_to_homepage_def)
    moreover from Cons.prems get meta False
    have "scan_repositories source_filename str_of entries st = Inr st'" by simp
    ultimately show ?thesis using Cons.IH by simp
  next
    case True
    with Cons.prems get meta obtain has_value where hv: "has_result_value entry = Inr has_value"
      by (auto simp: bind_r_Inr)
    show ?thesis
    proof (cases has_value)
      case no_value: False
      with get meta hv have "\<not> points_to_homepage entry"
        by (simp add: points_to_homepage_def carries_value_def)
      moreover from Cons.prems get meta True hv no_value
      have "scan_repositories source_filename str_of entries st = Inr st'" by simp
      ultimately show ?thesis using Cons.IH by simp
    next
      case has: True
      with Cons.prems get meta True hv obtain repo_url homepage where
        v: "result_value entry = Inr repo_url"
        and hp: "is_homepage_url_repo repo_url = Inr homepage"
        by (auto simp: bind_r_Inr)
      show ?thesis
      proof (cases homepage)
        case False
        with get meta hv v hp have "\<not> points_to_homepage entry"
          by (simp add: points_to_homepage_def)
        moreover from Cons.prems get meta True hv has v hp False
        have "scan_repositories source_filename str_of entries st = Inr st'" by simp
        ultimately show ?thesis using Cons.IH by simp
      next
        case homepage: True
        with get meta True hv has v hp have "points_to_homepage entry"
          by (simp add: points_to_homepage_def carries_value_def)
        moreover from Cons.prems get meta True hv has v hp homepage
        have "field ''has_pitfall'' (result st') = Some (PBool True)"
          by (auto simp: bind_r_Inr field_set_result)
        ultimately show ?thesis by simp
      qed
    qed
  qed
qed

lemma p009_pitfall:
  assumes "detect_coderepository_homepage_pitfall source_filename str_of data file_name = Inr r"
  shows "field ''has_pitfall'' r = Some (PBool (homepage_found data))"
    and "\<not> homepage_found data \<Longrightarrow> r = p009_result file_name"
proof -
  let ?st0 = "\<lparr>somef_data = data, result = p009_result file_name\<rparr>"
  from assms obtain st where
    body: "p009_body source_filename str_of data file_name = Inr st" and r: "r = result st"
    by (auto simp: detect_coderepository_homepage_pitfall_def bind_r_Inr)
  have f0: "field ''has_pitfall'' (result ?st0) = Some (PBool False)"
    by (simp add: field_def p009_result_def)
  have "if homepage_found data then field ''has_pitfall'' (result st) = Some (PBool True)
        else st = ?st0"
  proof (cases "\<exists>entries. map_of data ''code_repository'' = Some (PList entries)")
    case False
    with body show ?thesis
      by (auto simp: p009_body_def homepage_found_def entries_of_def
               split: option.splits py.splits)
  next
    case True
    then obtain entries where e: "map_of data ''code_repository'' = Some (PList entries)" by blast
    with body have "scan_repositories source_filename str_of entries ?st0 = Inr st"
      by (simp add: p009_body_def)
    from scan_repositories_found [OF this] e show ?thesis
      by (simp add: homepage_found_def entries_of_def)
  qed
  with r f0 show "field ''has_pitfall'' r = Some (PBool (homepage_found data))"
    and "\<not> homepage_found data \<Longrightarrow> r = p009_result file_name"
    by (auto split: if_splits)
qed

lemma conclude_w006_keys: "map fst (conclude_w006 vars (w006_result file_name)) = w006_fields"
  by (simp add: conclude_w006_def w006_result_def w006_fields_def Let_def update_keys)

lemma conclude_w006_field:
  "field ''codemeta_identifier'' (conclude_w006 vars (w006_result file_name)) =
     Some (codemeta_identifier vars)"
  "field ''other_identifier'' (conclude_w006 vars (w006_result file_name)) =
     Some (other_identifier vars)"
  "field ''other_identifiers'' (conclude_w006 vars (w006_result file_name)) =
     Some (PList (other_identifiers vars))"
  "field ''has_valid_identifier_elsewhere'' (conclude_w006 vars (w006_result file_name)) =
     Some (PBool (other_identifiers vars \<noteq> []))"
  "field ''has_warning'' (conclude_w006 vars (w006_result file_name)) =
     Some (PBool (truthy (codemeta_identifier vars) \<and>
                  \<not> is_valid_identifier (codemeta_identifier vars) \<and>
                  truthy (other_identifier vars)))"
  by (simp_all add: field_def conclude_w006_def w006_result_def Let_def update_conv)

lemma find_codemeta_others:
  "find_codemeta entries vars = Inr vars' \<Longrightarrow>
   other_identifier vars' = other_identifier vars \<and> other_source vars' = other_source vars \<and>
   other_identifiers vars' = other_identifiers vars"
  by (induction entries) (auto simp: bind_r_Inr split: if_splits)

lemma valid_other_not_none: "valid_other entry = Some (v, source) \<Longrightarrow> v \<noteq> PNone"
  by (auto simp: valid_other_def split: sum.splits bool.splits if_splits)

lemma collect_other_eq:
  assumes "collect_other entry vars = Inr vars'"
  shows "vars' =
     (case valid_other entry of
        None \<Rightarrow> vars
      | Some (v, source) \<Rightarrow>
          (if other_identifier vars = PNone
           then vars\<lparr>other_identifiers := other_identifiers vars @ [other_record (v, source)],
                     other_identifier := v, other_source := source\<rparr>
           else vars\<lparr>other_identifiers := other_identifiers vars @ [other_record (v, source)]\<rparr>))"
proof -
  from assms obtain source technique codemeta where
    get: "py_get entry ''source'' (PStr []) = Inr source"
         "py_get entry ''technique'' (PStr []) = Inr technique"
         "is_codemeta source technique = Inr codemeta"
    and rest: "(if codemeta then Inr vars
         else bind_r (has_result_value entry) (\<lambda>has_value.
           if \<not> has_value then Inr vars
           else bind_r (result_value entry) (\<lambda>identifier_value.
             if \<not> is_valid_identifier identifier_value then Inr vars
             else let vars1 = vars\<lparr>other_identifiers := other_identifiers vars @
                                    [PDict [(''value'', identifier_value), (''source'', source)]]\<rparr>
                  in Inr (if other_identifier vars1 = PNone
                          then vars1\<lparr>other_identifier := identifier_value,
                                     other_source := source\<rparr>
                          else vars1)))) = Inr vars'"
    unfolding collect_other_def bind_r_Inr by blast
  show ?thesis
  proof (cases codemeta)
    case True
    with rest get show ?thesis by (simp add: valid_other_def)
  next
    case False
    with rest obtain has_value where hv: "has_result_value entry = Inr has_value"
      by (auto simp: bind_r_Inr)
    show ?thesis
    proof (cases has_value)
      case no_value: False
      with rest get hv False show ?thesis by (simp add: valid_other_def)
    next
      case True
      with rest False hv obtain v where v: "result_value entry = Inr v"
        by (auto simp: bind_r_Inr)
      with rest get hv False True show ?thesis
        by (cases "is_valid_identifier v")
           (auto simp: valid_other_def other_record_def Let_def)
    qed
  qed
qed

lemma for_each_collect_other:
  "for_each collect_other entries vars = Inr vars' \<Longrightarrow>
   other_identifiers vars' =
     other_identifiers vars @ map other_record (List.map_filter valid_other entries) \<and>
   other_identifier vars' =
     (if other_identifier vars \<noteq> PNone then other_identifier vars
      else case List.map_filter valid_other entries of [] \<Rightarrow> PNone | (v, source) # _ \<Rightarrow> v) \<and>
   codemeta_identifier vars' = codemeta_identifier vars"
proof (induction entries arbitrary: vars)
  case Nil
  then show ?case by simp
next
  case (Cons entry entries)
  from Cons.prems obtain vars1 where step: "collect_other entry vars = Inr vars1"
    and rest: "for_each collect_other entries vars1 = Inr vars'"
    by (auto simp: bind_r_Inr)
  note eq = collect_other_eq [OF step]
  show ?case
  proof (cases "valid_other entry")
    case None
    with eq Cons.IH [OF rest] show ?thesis by simp
  next
    case (Some p)
    obtain v source where p: "p = (v, source)" by (cases p)
    with Some have "v \<noteq> PNone" by (auto dest: valid_other_not_none)
    with eq Some p Cons.IH [OF rest] show ?thesis
      by simp
  qed
qed

lemma is_codemeta_returns: "\<exists>b. is_codemeta (PStr s) technique = Inr b"
  by (simp add: is_codemeta_def)

lemma find_codemeta_returns:
  "list_all sound_entry entries \<Longrightarrow> \<exists>vars'. find_codemeta entries vars = Inr vars'"
proof (induction entries)
  case Nil
  then show ?case by simp
next
  case (Cons entry entries)
  then have sound: "sound_entry entry"
    and rest: "\<exists>vars'. find_codemeta entries vars = Inr vars'"
    by auto
  from sound obtain s technique where get:
    "py_get entry ''source'' (PStr []) = Inr (PStr s)"
    "py_get entry ''technique'' (PStr []) = Inr technique"
    using sound_entry_get sound_entry_technique by blast
  obtain codemeta where cm: "is_codemeta (PStr s) technique = Inr codemeta"
    using is_codemeta_returns by blast
  from sound obtain has_value where hv: "has_result_value entry = Inr has_value"
    using sound_entry_has_result_value by blast
  show ?case
  proof (cases "codemeta \<and> has_value")
    case False
    with get cm hv rest show ?thesis by auto
  next
    case True
    with hv have "has_result_value entry = Inr True" by simp
    from has_result_value_result_value [OF sound this]
    obtain v where "result_value entry = Inr v" by blast
    with get cm hv rest True show ?thesis by auto
  qed
qed

lemma collect_other_returns:
  assumes "sound_entry entry"
  shows "\<exists>vars'. collect_other entry vars = Inr vars'"
proof -
  from assms obtain s technique where get:
    "py_get entry ''source'' (PStr []) = Inr (PStr s)"
    "py_get entry ''technique'' (PStr []) = Inr technique"
    using sound_entry_get sound_entry_technique by blast
  obtain codemeta where cm: "is_codemeta (PStr s) technique = Inr codemeta"
    using is_codemeta_returns by blast
  from assms obtain has_value where hv: "has_result_value entry = Inr has_value"
    using sound_entry_has_result_value by blast
  show ?thesis
  proof (cases "\<not> codemeta \<and> has_value")
    case False
    with get cm hv show ?thesis by (auto simp: collect_other_def)
  next
    case True
    with hv have "has_result_value entry = Inr True" by simp
    from has_result_value_result_value [OF assms this]
    obtain v where "result_value entry = Inr v" by blast
    with get cm hv True show ?thesis by (simp add: collect_other_def Let_def)
  qed
qed

lemma w006_returns:
  assumes "sound_attribute data ''identifier''"
  shows "\<exists>r. detect_identifier_name_warning data file_name = Inr r"
proof (cases "\<exists>entries. map_of data ''identifier'' = Some (PList entries)")
  case False
  then show ?thesis
    by (auto simp: detect_identifier_name_warning_def split: option.splits py.splits)
next
  case True
  then obtain entries where entries: "map_of data ''identifier'' = Some (PList entries)"
    by blast
  with assms have sound: "list_all sound_entry entries"
    by (simp add: sound_attribute_def)
  then obtain vars1 where v1: "find_codemeta entries w006_vars0 = Inr vars1"
    using find_codemeta_returns by blast
  from sound have "\<exists>vars. for_each collect_other entries vars1 = Inr vars \<and> True"
    by (intro for_each_returns [where I = "\<lambda>_. True"])
       (auto simp: list_all_iff dest: collect_other_returns)
  with entries v1 show ?thesis
    by (auto simp: detect_identifier_name_warning_def)
qed

lemma w006_keys:
  "detect_identifier_name_warning data file_name = Inr r \<Longrightarrow> map fst r = w006_fields"
  by (auto simp: detect_identifier_name_warning_def bind_r_Inr conclude_w006_keys
           split: option.splits py.splits)
     (simp_all add: w006_result_def w006_fields_def)

lemma find_codemeta_first:
  "find_codemeta entries vars = Inr vars' \<Longrightarrow> codemeta_identifier vars = PNone \<Longrightarrow>
   codemeta_identifier vars' =
     (case List.map_filter codemeta_value entries of [] \<Rightarrow> PNone | v # _ \<Rightarrow> v)"
proof (induction entries)
  case Nil
  then show ?case by simp
next
  case (Cons entry entries)
  from Cons.prems(1) obtain source technique codemeta where
    get: "py_get entry ''source'' (PStr []) = Inr source"
         "py_get entry ''technique'' (PStr []) = Inr technique"
         "is_codemeta source technique = Inr codemeta"
    by (auto simp: bind_r_Inr)
  show ?case
  proof (cases codemeta)
    case False
    with get have "codemeta_value entry = None" by (simp add: codemeta_value_def)
    moreover from Cons.prems(1) get False have "find_codemeta entries vars = Inr vars'" by simp
    ultimately show ?thesis using Cons.IH Cons.prems(2) by simp
  next
    case True
    with Cons.prems(1) get obtain has_value where hv: "has_result_value entry = Inr has_value"
      by (auto simp: bind_r_Inr)
    show ?thesis
    proof (cases has_value)
      case False
      with get hv True have "codemeta_value entry = None" by (simp add: codemeta_value_def)
      moreover from Cons.prems(1) get True hv False
      have "find_codemeta entries vars = Inr vars'" by simp
      ultimately show ?thesis using Cons.IH Cons.prems(2) by simp
    next
      case has: True
      with Cons.prems get True hv obtain v where v: "result_value entry = Inr v"
        and vars': "vars' = vars\<lparr>codemeta_identifier := v, codemeta_source := source\<rparr>"
        by (auto simp: bind_r_Inr)
      from get True hv has v have "codemeta_value entry = Some v"
        by (simp add: codemeta_value_def)
      with vars' show ?thesis by simp
    qed
  qed
qed

lemma valid_identifier_truthy: "is_valid_identifier v \<Longrightarrow> truthy v"
  by (cases v) (auto split: if_splits)

lemma valid_other_valid: "valid_other entry = Some (v, source) \<Longrightarrow> is_valid_identifier v"
  by (auto simp: valid_other_def split: sum.splits bool.splits if_splits)

lemma map_filter_member:
  "y \<in> set (List.map_filter f xs) \<Longrightarrow> \<exists>x \<in> set xs. f x = Some y"
  by (induction xs) (auto split: option.splits)

lemma first_valid_other_truthy: "truthy (first_valid_other data) \<longleftrightarrow> valid_others data \<noteq> []"
proof (cases "valid_others data")
  case Nil
  then show ?thesis by (simp add: first_valid_other_def)
next
  case (Cons p ps)
  obtain v source where p: "p = (v, source)" by (cases p)
  with Cons have "(v, source) \<in> set (valid_others data)" by simp
  then obtain entry where "valid_other entry = Some (v, source)"
    by (auto simp: valid_others_def split: option.splits py.splits dest: map_filter_member)
  then have "truthy v" by (auto dest: valid_other_valid valid_identifier_truthy)
  with Cons p show ?thesis by (simp add: first_valid_other_def)
qed

lemma w006_warning:
  assumes "detect_identifier_name_warning data file_name = Inr r"
  shows "field ''has_warning'' r =
     Some (PBool (truthy (first_codemeta data) \<and> \<not> is_valid_identifier (first_codemeta data) \<and>
                  valid_others data \<noteq> []))"
proof (cases "\<exists>entries. map_of data ''identifier'' = Some (PList entries)")
  case False
  with assms have "r = w006_result file_name" "first_codemeta data = PNone"
    by (auto simp: detect_identifier_name_warning_def first_codemeta_def entries_of_def
             split: option.splits py.splits)
  then show ?thesis by (simp add: field_def w006_result_def)
next
  case True
  then obtain entries where entries: "map_of data ''identifier'' = Some (PList entries)"
    by blast
  with assms obtain vars1 vars where
    v1: "find_codemeta entries w006_vars0 = Inr vars1"
    and v: "for_each collect_other entries vars1 = Inr vars"
    and r: "r = conclude_w006 vars (w006_result file_name)"
    by (auto simp: detect_identifier_name_warning_def bind_r_Inr)
  from find_codemeta_first [OF v1] entries
  have c1: "codemeta_identifier vars1 = first_codemeta data"
    by (simp add: w006_vars0_def first_codemeta_def entries_of_def)
  from find_codemeta_others [OF v1]
  have start: "other_identifier vars1 = PNone" "other_identifiers vars1 = []"
    by (simp_all add: w006_vars0_def)
  from entries have others: "valid_others data = List.map_filter valid_other entries"
    by (simp add: valid_others_def)
  from for_each_collect_other [OF v] start others c1
  have "codemeta_identifier vars = first_codemeta data"
    and "other_identifier vars = first_valid_other data"
    by (simp_all add: first_valid_other_def)
  then show ?thesis
    unfolding r conclude_w006_field by (simp add: first_valid_other_truthy)
qed

section \<open>Properties of the URL classifiers\<close>

text \<open>
  C9. The two classifiers of p009 never both accept: a string that
  \<^verbatim>\<open>is_homepage_url_repo\<close> accepts is rejected by \<^verbatim>\<open>is_repository_url\<close>. And a
  string whose lower-case form contains \<^verbatim>\<open>github.io\<close> is never a repository URL,
  whatever repository indicator it also contains.
\<close>

theorem homepage_excludes_repository:
  "(is_homepage_url_repo (PStr url) = Inr True \<longrightarrow> is_repository_url (PStr url) = Inr False)
   \<and> (contains ''github.io'' (lower url) \<longrightarrow> is_repository_url (PStr url) = Inr False)"
  by (auto simp: is_homepage_url_repo_def is_repository_url_def
           split: if_splits sum.splits bool.splits)

theorem homepage_excludes_repository_witness:
  "is_homepage_url_repo (PStr ''https://GitHub.com/u.github.io'') = Inr True
   \<and> contains ''github.io'' (lower ''https://GitHub.com/u.github.io'')
   \<and> is_repository_url (PStr ''https://GitHub.com/u.github.io'') = Inr False"
  using homepage_excludes_repository [of "''https://GitHub.com/u.github.io''"]
  by code_simp

section \<open>The rules on the sample records\<close>

lemma p007_sample_body:
  "p007_body rule_sample ''test.json'' =
     Inr \<lparr>somef_data = rule_sample, result = p007_sample_finding\<rparr>"
  by code_simp

lemma p009_sample_body:
  "p009_body no_source_file no_text rule_sample ''test.json'' =
     Inr \<lparr>somef_data = rule_sample, result = p009_sample_finding\<rparr>"
  by code_simp

lemma w006_sample_result:
  "detect_identifier_name_warning rule_sample ''test.json'' = Inr w006_sample_finding"
  by code_simp

lemma rule_sample_sound:
  "p007_sound rule_sample" "p009_sound rule_sample" "sound_attribute rule_sample ''identifier''"
  by code_simp+

section \<open>When a rule raises\<close>

text \<open>
  C1, as stated, fails: an entry that is not a dictionary has no \<^verbatim>\<open>get\<close> method, and
  the rule raises \<^verbatim>\<open>AttributeError\<close> at \<^verbatim>\<open>entry.get("source", "")\<close>.
\<close>

theorem rule_raises_on_malformed_entry:
  "detect_citation_missing_reference_publication_pitfall
     [(''reference_publication'', PList [PStr ''repository/codemeta.json''])] ''test.json''
   = Inl AttributeError"
  by code_simp

text \<open>
  C1, amended. On a record whose scanned attributes are sound (each is absent, not a
  list, or a list of dictionaries whose source, if any, is a string and whose result, if
  any, is a dictionary; for p009 the value of a result is a string or a false value, and
  \<^verbatim>\<open>extract_metadata_source_filename\<close> returns on strings) no rule raises, and the
  Finding reports an issue exactly when the evidence is resolved: for p007 a codemeta
  reference and a CITATION.cff source without a CITATION.cff reference, for p009 a
  metadata entry whose value is a homepage URL, for w006 a first codemeta identifier
  that is not false and not valid together with a valid identifier elsewhere. So
  whenever a piece of the evidence cannot be resolved, \<^verbatim>\<open>has_pitfall\<close> or
  \<^verbatim>\<open>has_warning\<close> is false, and p009 then returns its \<^verbatim>\<open>result\<close> literal unchanged.
\<close>

theorem rules_return_on_sound_records:
  "(p007_sound data \<longrightarrow>
      (\<exists>r. detect_citation_missing_reference_publication_pitfall data file_name = Inr r \<and>
           field ''has_pitfall'' r =
             Some (PBool (codemeta_reference data \<and> citation_exists data \<and>
                          \<not> citation_reference data))))
   \<and> (p009_sound data \<and> (\<forall>s. \<exists>w. source_filename (PStr s) = Inr w) \<longrightarrow>
      (\<exists>r. detect_coderepository_homepage_pitfall source_filename str_of data file_name = Inr r \<and>
           field ''has_pitfall'' r = Some (PBool (homepage_found data)) \<and>
           (\<not> homepage_found data \<longrightarrow> r = p009_result file_name)))
   \<and> (sound_attribute data ''identifier'' \<longrightarrow>
      (\<exists>r. detect_identifier_name_warning data file_name = Inr r \<and>
           field ''has_warning'' r =
             Some (PBool (truthy (first_codemeta data) \<and>
                          \<not> is_valid_identifier (first_codemeta data) \<and>
                          valid_others data \<noteq> []))))"
proof (intro conjI impI)
  assume "p007_sound data"
  then obtain st where "p007_body data file_name = Inr st"
    using p007_body_returns by blast
  then have "detect_citation_missing_reference_publication_pitfall data file_name =
      Inr (result st)"
    by (simp add: detect_citation_missing_reference_publication_pitfall_def)
  then show "\<exists>r. detect_citation_missing_reference_publication_pitfall data file_name = Inr r \<and>
      field ''has_pitfall'' r =
        Some (PBool (codemeta_reference data \<and> citation_exists data \<and> \<not> citation_reference data))"
    using p007_pitfall by blast
next
  assume "p009_sound data \<and> (\<forall>s. \<exists>w. source_filename (PStr s) = Inr w)"
  then obtain st where "p009_body source_filename str_of data file_name = Inr st"
    using p009_body_returns by blast
  then have "detect_coderepository_homepage_pitfall source_filename str_of data file_name =
      Inr (result st)"
    by (simp add: detect_coderepository_homepage_pitfall_def)
  then show "\<exists>r. detect_coderepository_homepage_pitfall source_filename str_of data file_name =
        Inr r \<and>
      field ''has_pitfall'' r = Some (PBool (homepage_found data)) \<and>
      (\<not> homepage_found data \<longrightarrow> r = p009_result file_name)"
    using p009_pitfall by blast
next
  assume "sound_attribute data ''identifier''"
  then show "\<exists>r. detect_identifier_name_warning data file_name = Inr r \<and>
      field ''has_warning'' r =
        Some (PBool (truthy (first_codemeta data) \<and>
                     \<not> is_valid_identifier (first_codemeta data) \<and> valid_others data \<noteq> []))"
    using w006_returns w006_warning by blast
qed

lemma unresolved_sample_sound:
  "p007_sound unresolved_sample" "p009_sound unresolved_sample"
  "sound_attribute unresolved_sample ''identifier''"
  by code_simp+

lemma unresolved_sample_evidence:
  "codemeta_reference unresolved_sample" "\<not> citation_exists unresolved_sample"
  "\<not> homepage_found unresolved_sample"
  "truthy (first_codemeta unresolved_sample)" "valid_others unresolved_sample = []"
  by code_simp+

theorem rules_return_on_sound_records_witness:
  "p007_sound unresolved_sample \<and> p009_sound unresolved_sample
   \<and> sound_attribute unresolved_sample ''identifier''
   \<and> (\<forall>s. \<exists>w. no_source_file (PStr s) = Inr w)
   \<and> codemeta_reference unresolved_sample \<and> \<not> citation_exists unresolved_sample
   \<and> \<not> homepage_found unresolved_sample
   \<and> truthy (first_codemeta unresolved_sample) \<and> valid_others unresolved_sample = []
   \<and> (\<exists>r. detect_citation_missing_reference_publication_pitfall unresolved_sample ''test.json''
            = Inr r \<and> field ''has_pitfall'' r = Some (PBool False))
   \<and> detect_coderepository_homepage_pitfall no_source_file no_text unresolved_sample
        ''test.json'' = Inr (p009_result ''test.json'')
   \<and> (\<exists>r. detect_identifier_name_warning unresolved_sample ''test.json'' = Inr r
          \<and> field ''has_warning'' r = Some (PBool False))"
proof -
  have helper: "\<forall>s. \<exists>w. no_source_file (PStr s) = Inr w"
    by (simp add: no_source_file_def)
  note rules = rules_return_on_sound_records
    [of unresolved_sample "''test.json''" no_source_file no_text]
  from rules unresolved_sample_sound(1) unresolved_sample_evidence
  have p007: "\<exists>r. detect_citation_missing_reference_publication_pitfall unresolved_sample
      ''test.json'' = Inr r \<and> field ''has_pitfall'' r = Some (PBool False)"
    by simp
  from rules unresolved_sample_sound(2) helper unresolved_sample_evidence(3)
  have p009: "detect_coderepository_homepage_pitfall no_source_file no_text unresolved_sample
      ''test.json'' = Inr (p009_result ''test.json'')"
    by auto
  from rules unresolved_sample_sound(3) unresolved_sample_evidence
  have w006: "\<exists>r. detect_identifier_name_warning unresolved_sample ''test.json'' = Inr r \<and>
      field ''has_warning'' r = Some (PBool False)"
    by simp
  from unresolved_sample_sound unresolved_sample_evidence helper p007 p009 w006
  show ?thesis by blast
qed

section \<open>The record is only read\<close>

lemma technique_label_agree:
  "str_of technique = str_of' technique \<Longrightarrow>
   technique_label str_of technique = technique_label str_of' technique"
  by (cases technique) simp_all

lemma scan_step_agree:
  assumes "agree_on_entry source_filename str_of source_filename' str_of' entry"
    and "scan_repositories source_filename str_of entries st =
         scan_repositories source_filename' str_of' entries st"
  shows "scan_repositories source_filename str_of (entry # entries) st =
         scan_repositories source_filename' str_of' (entry # entries) st"
proof (cases "py_get entry ''technique'' (PStr [])")
  case (Inl e)
  then show ?thesis by (simp only: scan_repositories.simps bind_r_simps)
next
  case technique: (Inr technique)
  show ?thesis
  proof (cases "py_get entry ''source'' (PStr [])")
    case (Inl e)
    with technique show ?thesis by (simp only: scan_repositories.simps bind_r_simps)
  next
    case (Inr source)
    with technique assms(1) have helper: "source_filename source = source_filename' source"
      and label: "str_of technique = str_of' technique"
      by (simp_all add: agree_on_entry_def)
    note same = helper technique_label_agree [of str_of technique str_of', OF label]
    show ?thesis
      unfolding scan_repositories.simps technique Inr bind_r_simps same assms(2) ..
  qed
qed

lemma scan_repositories_agree:
  "list_all (agree_on_entry source_filename str_of source_filename' str_of') entries \<Longrightarrow>
   scan_repositories source_filename str_of entries st =
   scan_repositories source_filename' str_of' entries st"
proof (induction entries)
  case Nil
  show ?case by (simp only: scan_repositories.simps)
next
  case (Cons entry entries)
  then have "agree_on_entry source_filename str_of source_filename' str_of' entry"
    and "scan_repositories source_filename str_of entries st =
         scan_repositories source_filename' str_of' entries st"
    by simp_all
  then show ?case by (rule scan_step_agree)
qed

lemma p009_body_agree:
  "agree_on source_filename str_of source_filename' str_of' data \<Longrightarrow>
   p009_body source_filename str_of data file_name =
   p009_body source_filename' str_of' data file_name"
proof (cases "\<exists>entries. map_of data ''code_repository'' = Some (PList entries)")
  case False
  then show ?thesis
    by (auto simp: p009_body_def Let_def split: option.splits py.splits)
next
  case True
  then obtain entries where entries: "map_of data ''code_repository'' = Some (PList entries)"
    by blast
  assume "agree_on source_filename str_of source_filename' str_of' data"
  with entries
  have "list_all (agree_on_entry source_filename str_of source_filename' str_of') entries"
    by (simp add: agree_on_def entries_of_def)
  from scan_repositories_agree [OF this] entries show ?thesis
    by (simp add: p009_body_def)
qed

lemma helpers_agree: "agree_on no_source_file no_text other_source_file other_text rule_sample"
  by code_simp

lemma helpers_differ: "no_source_file PNone \<noteq> other_source_file PNone"
  "no_text PNone \<noteq> other_text PNone"
  by code_simp+



section \<open>The fields of a Finding\<close>

lemma p007_keys:
  "detect_citation_missing_reference_publication_pitfall data file_name = Inr r \<Longrightarrow>
   map fst r = p007_fields"
  using p007_body_inv [of data file_name]
  by (auto simp: detect_citation_missing_reference_publication_pitfall_def bind_r_Inr
        p007_inv_def)

lemma p009_keys:
  "detect_coderepository_homepage_pitfall source_filename str_of data file_name = Inr r \<Longrightarrow>
   map fst r = p009_fields"
  using p009_body_inv [of source_filename str_of data file_name]
  by (auto simp: detect_coderepository_homepage_pitfall_def bind_r_Inr p009_inv_def)

text \<open>
  C3. For every record and file name, every Finding a rule returns has exactly the
  fields of the rule, in the order of its \<^verbatim>\<open>result\<close> literal, on every return path
  and whether or not an issue was found: the literal holds all the fields and every
  later write is to one of them. A Finding is returned on every record whose scanned
  attributes are sound.
\<close>

theorem finding_has_all_fields:
  "(\<forall>r. detect_citation_missing_reference_publication_pitfall data file_name = Inr r \<longrightarrow>
        map fst r = p007_fields)
   \<and> (\<forall>r. detect_coderepository_homepage_pitfall source_filename str_of data file_name = Inr r \<longrightarrow>
        map fst r = p009_fields)
   \<and> (\<forall>r. detect_identifier_name_warning data file_name = Inr r \<longrightarrow> map fst r = w006_fields)
   \<and> (p007_sound data \<longrightarrow>
        (\<exists>r. detect_citation_missing_reference_publication_pitfall data file_name = Inr r))
   \<and> (p009_sound data \<and> (\<forall>s. \<exists>w. source_filename (PStr s) = Inr w) \<longrightarrow>
        (\<exists>r. detect_coderepository_homepage_pitfall source_filename str_of data file_name = Inr r))
   \<and> (sound_attribute data ''identifier'' \<longrightarrow>
        (\<exists>r. detect_identifier_name_warning data file_name = Inr r))"
proof (intro conjI allI impI)
  assume "p007_sound data"
  then obtain st where "p007_body data file_name = Inr st"
    using p007_body_returns by blast
  then show "\<exists>r. detect_citation_missing_reference_publication_pitfall data file_name = Inr r"
    by (simp add: detect_citation_missing_reference_publication_pitfall_def)
next
  assume "p009_sound data \<and> (\<forall>s. \<exists>w. source_filename (PStr s) = Inr w)"
  then obtain st where "p009_body source_filename str_of data file_name = Inr st"
    using p009_body_returns by blast
  then show "\<exists>r. detect_coderepository_homepage_pitfall source_filename str_of data file_name
      = Inr r"
    by (simp add: detect_coderepository_homepage_pitfall_def)
qed (auto intro: p007_keys p009_keys w006_keys w006_returns)

theorem finding_has_all_fields_witness:
  "detect_citation_missing_reference_publication_pitfall rule_sample ''test.json'' =
     Inr p007_sample_finding
   \<and> map fst p007_sample_finding = p007_fields
   \<and> detect_coderepository_homepage_pitfall no_source_file no_text rule_sample ''test.json'' =
     Inr p009_sample_finding
   \<and> map fst p009_sample_finding = p009_fields
   \<and> detect_identifier_name_warning rule_sample ''test.json'' = Inr w006_sample_finding
   \<and> map fst w006_sample_finding = w006_fields
   \<and> p007_sound rule_sample \<and> p009_sound rule_sample
   \<and> sound_attribute rule_sample ''identifier''
   \<and> (\<forall>s. \<exists>w. no_source_file (PStr s) = Inr w)"
  using finding_has_all_fields [of rule_sample "''test.json''" no_source_file no_text]
    p007_sample_body p009_sample_body w006_sample_result rule_sample_sound
  by (simp add: detect_citation_missing_reference_publication_pitfall_def
        detect_coderepository_homepage_pitfall_def no_source_file_def)

section \<open>The evidence behind an identifier warning\<close>

text \<open>
  C10. In every Finding that \<^verbatim>\<open>detect_identifier_name_warning\<close> returns: a warning
  implies that the codemeta identifier is not \<^verbatim>\<open>None\<close> and fails
  \<^verbatim>\<open>is_valid_identifier\<close>, that the other identifier is not \<^verbatim>\<open>None\<close>, and that
  \<^verbatim>\<open>has_valid_identifier_elsewhere\<close> is true; \<^verbatim>\<open>has_valid_identifier_elsewhere\<close> is true
  exactly when \<^verbatim>\<open>other_identifiers\<close> is not empty, and that list holds the valid
  identifiers found outside codemeta in extraction order; \<^verbatim>\<open>other_identifier\<close> is the
  first of them (\<^verbatim>\<open>None\<close> when there is none).
\<close>

theorem identifier_warning_evidence:
  assumes "detect_identifier_name_warning data file_name = Inr r"
  shows "(field ''has_warning'' r = Some (PBool True) \<longrightarrow>
            (\<exists>c. field ''codemeta_identifier'' r = Some c \<and> c \<noteq> PNone \<and>
                 \<not> is_valid_identifier c) \<and>
            (\<exists>other. field ''other_identifier'' r = Some other \<and> other \<noteq> PNone) \<and>
            field ''has_valid_identifier_elsewhere'' r = Some (PBool True))
       \<and> (\<exists>ids. field ''other_identifiers'' r = Some (PList ids) \<and>
                 ids = map other_record (valid_others data) \<and>
                 field ''has_valid_identifier_elsewhere'' r = Some (PBool (ids \<noteq> [])))
       \<and> field ''other_identifier'' r = Some (first_valid_other data)"
proof (cases "\<exists>entries. map_of data ''identifier'' = Some (PList entries)")
  case False
  with assms have "r = w006_result file_name" "valid_others data = []"
    by (auto simp: detect_identifier_name_warning_def valid_others_def
             split: option.splits py.splits)
  then show ?thesis
    by (simp add: field_def w006_result_def first_valid_other_def)
next
  case True
  then obtain entries where entries: "map_of data ''identifier'' = Some (PList entries)"
    by blast
  with assms obtain vars1 vars where
    v1: "find_codemeta entries w006_vars0 = Inr vars1"
    and v: "for_each collect_other entries vars1 = Inr vars"
    and r: "r = conclude_w006 vars (w006_result file_name)"
    by (auto simp: detect_identifier_name_warning_def bind_r_Inr)
  from find_codemeta_others [OF v1]
  have start: "other_identifier vars1 = PNone" "other_identifiers vars1 = []"
    by (simp_all add: w006_vars0_def)
  from entries have others: "valid_others data = List.map_filter valid_other entries"
    by (simp add: valid_others_def)
  from for_each_collect_other [OF v] start others
  have ids: "other_identifiers vars = map other_record (valid_others data)"
    and first: "other_identifier vars = first_valid_other data"
    by (simp_all add: first_valid_other_def)
  have "truthy (other_identifier vars) \<Longrightarrow> valid_others data \<noteq> []"
    using first by (auto simp: first_valid_other_def)
  moreover have "\<And>v. truthy v \<Longrightarrow> v \<noteq> PNone" by auto
  ultimately show ?thesis
    unfolding r conclude_w006_field using ids first by auto
qed

theorem identifier_warning_evidence_witness:
  "detect_identifier_name_warning rule_sample ''test.json'' = Inr w006_sample_finding
   \<and> field ''has_warning'' w006_sample_finding = Some (PBool True)
   \<and> field ''has_valid_identifier_elsewhere'' w006_sample_finding = Some (PBool True)
   \<and> field ''other_identifier'' w006_sample_finding = Some (first_valid_other rule_sample)"
  using identifier_warning_evidence [OF w006_sample_result] w006_sample_result
  by (simp add: field_def w006_sample_finding_def)

section \<open>Version normalisation\<close>

lemma last_dropWhile: "dropWhile P xs \<noteq> [] \<Longrightarrow> last (dropWhile P xs) = last xs"
  by (metis last_appendR takeWhile_dropWhile_id)

lemma dropWhile_self: "xs \<noteq> [] \<Longrightarrow> \<not> P (hd xs) \<Longrightarrow> dropWhile P xs = xs"
  by (cases xs) auto

lemma dropWhile_same_length: "length (dropWhile P xs) = length xs \<Longrightarrow> dropWhile P xs = xs"
  using length_dropWhile_le [of P "tl xs"] by (cases xs) (auto split: if_splits)

lemma strip_ends:
  assumes "strip s \<noteq> []"
  shows "hd (strip s) \<notin> set whitespace" and "last (strip s) \<notin> set whitespace"
proof -
  let ?ws = "\<lambda>c. c \<in> set whitespace"
  let ?t = "dropWhile ?ws s"
  let ?u = "dropWhile ?ws (rev ?t)"
  have s: "strip s = rev ?u" by (simp add: strip_def)
  with assms have u: "?u \<noteq> []" by simp
  then have t: "?t \<noteq> []" by (metis dropWhile.simps(1) rev.simps(1))
  from u have "\<not> ?ws (hd ?u)" by (rule hd_dropWhile)
  then show "last (strip s) \<notin> set whitespace"
    using u s by (simp add: last_rev)
  from t have "\<not> ?ws (hd ?t)" by (rule hd_dropWhile)
  moreover have "last ?u = hd ?t"
    using last_dropWhile [OF u] t by (simp add: last_rev)
  ultimately show "hd (strip s) \<notin> set whitespace"
    using u s by (simp add: hd_rev)
qed

lemma strip_fixed:
  "strip s = s \<longleftrightarrow> s = [] \<or> (hd s \<notin> set whitespace \<and> last s \<notin> set whitespace)"
proof (cases "s = []")
  case True
  then show ?thesis by (simp add: strip_def)
next
  case False
  show ?thesis
  proof
    assume "strip s = s"
    with False strip_ends [of s] show "s = [] \<or> (hd s \<notin> set whitespace \<and> last s \<notin> set whitespace)"
      by simp
  next
    assume "s = [] \<or> (hd s \<notin> set whitespace \<and> last s \<notin> set whitespace)"
    with False have "hd s \<notin> set whitespace" "hd (rev s) \<notin> set whitespace"
      by (simp_all add: hd_rev)
    with False have "dropWhile (\<lambda>c. c \<in> set whitespace) s = s"
      "dropWhile (\<lambda>c. c \<in> set whitespace) (rev s) = rev s"
      by (simp_all add: dropWhile_self)
    then show "strip s = s"
      by (simp add: strip_def)
  qed
qed

lemma strip_whitespace: "set s \<subseteq> set whitespace \<Longrightarrow> strip s = []"
  by (auto simp: strip_def dropWhile_eq_Nil_conv dest: set_dropWhileD)

lemma length_strip: "length (strip s) \<le> length s"
  unfolding strip_def
  by (metis length_dropWhile_le length_rev order_trans)

lemma strip_same_length:
  assumes "length (strip s) = length s"
  shows "strip s = s"
proof -
  let ?ws = "\<lambda>c. c \<in> set whitespace"
  have "length (strip s) \<le> length (dropWhile ?ws s)"
    unfolding strip_def by (metis length_dropWhile_le length_rev)
  with assms have "length (dropWhile ?ws s) = length s"
    using length_dropWhile_le [of ?ws s] by simp
  then have front: "dropWhile ?ws s = s" by (rule dropWhile_same_length)
  with assms have "length (dropWhile ?ws (rev s)) = length (rev s)"
    by (simp add: strip_def)
  then have "dropWhile ?ws (rev s) = rev s" by (rule dropWhile_same_length)
  with front show ?thesis by (simp add: strip_def)
qed

lemma length_strip_v: "length (strip_v s) \<le> length s"
  by (cases s) (simp_all add: strip_v_def)

lemma strip_v_fixed: "strip_v s = s \<longleftrightarrow> s = [] \<or> hd s \<notin> set ''vV''"
  by (cases s) (auto simp: strip_v_def)

lemma normalize_version_Some:
  "normalize_version x = Some y \<longleftrightarrow> (\<exists>s. x = Some s \<and> y = strip_v (strip s) \<and> y \<noteq> [])"
  by (cases x) (auto simp: normalize_version_def Let_def)

lemma normalized_last:
  assumes "normalize_version x = Some y"
  shows "y \<noteq> []" and "last y \<notin> set whitespace"
proof -
  from assms obtain s where y: "y = strip_v (strip s)" and nonempty: "y \<noteq> []"
    by (auto simp: normalize_version_Some)
  then have "strip s \<noteq> []" by (auto simp: strip_v_def)
  moreover have "last y = last (strip s)"
    using y nonempty by (cases "strip s") (auto simp: strip_v_def split: if_splits)
  ultimately show "last y \<notin> set whitespace" using strip_ends(2) by simp
  show "y \<noteq> []" by fact
qed

lemma normalize_version_fixed:
  assumes "normalize_version x = Some y"
  shows "normalize_version (Some y) = Some y \<longleftrightarrow>
         hd y \<notin> set ''vV'' \<and> hd y \<notin> set whitespace"
proof
  assume "hd y \<notin> set ''vV'' \<and> hd y \<notin> set whitespace"
  with normalized_last [OF assms] have "strip y = y" "strip_v y = y"
    by (simp_all add: strip_fixed strip_v_fixed)
  with normalized_last(1) [OF assms] show "normalize_version (Some y) = Some y"
    by (simp add: normalize_version_def)
next
  assume "normalize_version (Some y) = Some y"
  then have eq: "strip_v (strip y) = y" by (simp add: normalize_version_Some)
  have "length y \<le> length (strip y)"
    using length_strip_v [of "strip y"] eq by simp
  with length_strip [of y] have "strip y = y" by (intro strip_same_length) simp
  with eq normalized_last [OF assms] show "hd y \<notin> set ''vV'' \<and> hd y \<notin> set whitespace"
    by (simp add: strip_fixed strip_v_fixed)
qed




section \<open>Version mismatch\<close>

lemma version_mismatch_fields:
  "map fst (detect_version_mismatch source_filename record file_name) = p001_fields"
  by (simp add: detect_version_mismatch_def p001_fields_def Let_def
           split: option.splits prod.splits)

lemma has_pitfall_bool:
  "field ''has_pitfall'' (detect_version_mismatch source_filename record file_name) =
     Some (PBool (\<exists>source version tag.
       metadata_version record = Some (source, version) \<and> release_tag record = Some tag \<and>
       normalize_version (Some version) \<noteq> normalize_version (Some tag) \<and>
       nonempty (normalize_version (Some version)) \<and>
       nonempty (normalize_version (Some tag))))"
proof (cases "metadata_version record")
  case None
  then show ?thesis by (simp add: detect_version_mismatch_def field_def)
next
  case (Some p)
  obtain source version where p: "p = (source, version)" by (cases p)
  show ?thesis
  proof (cases "release_tag record")
    case None
    with Some p show ?thesis by (simp add: detect_version_mismatch_def field_def)
  next
    case tag: (Some tag)
    with Some p show ?thesis
      by (simp add: detect_version_mismatch_def field_def Let_def)
  qed
qed

lemma version_mismatch_evidence:
  assumes "metadata_version record = Some (source, version)" and "release_tag record = Some tag"
  shows "field ''metadata_version'' (detect_version_mismatch source_filename record file_name) =
           Some (optional_str (normalize_version (Some version)))"
    and "field ''release_version'' (detect_version_mismatch source_filename record file_name) =
           Some (optional_str (normalize_version (Some tag)))"
    and "field ''has_pitfall'' (detect_version_mismatch source_filename record file_name) =
           Some (PBool True) \<Longrightarrow>
         field ''metadata_source'' (detect_version_mismatch source_filename record file_name) =
           Some (PStr source) \<and>
         field ''metadata_source_file''
           (detect_version_mismatch source_filename record file_name) =
           Some (source_filename source)"
  using assms
  by (simp_all add: detect_version_mismatch_def field_def Let_def split: if_splits)

lemma version_sample_resolved:
  "metadata_version version_sample = Some (''repo/package.json'', ''1.2.3'')"
  "release_tag version_sample = Some ''v2.0.0''"
  "normalize_version (Some ''1.2.3'') = Some ''1.2.3''"
  "normalize_version (Some ''v2.0.0'') = Some ''2.0.0''"
  by code_simp+

lemma version_sample_result:
  "detect_version_mismatch source_filename version_sample ''test_repo.json'' =
     version_sample_finding (source_filename ''repo/package.json'')"
  by (simp add: detect_version_mismatch_def version_sample_resolved Let_def nonempty_def
        optional_str_def version_sample_finding_def)

text \<open>
  C5. The version-mismatch check reports an issue exactly when a version was resolved
  from structured metadata, a tag was resolved from the release history, and the two
  normalised strings are both non-empty and differ. The Finding always has its six
  fields; when both values were resolved it records the normalised strings, and on an
  issue the source and its file name. The record with version \<^verbatim>\<open>"1.2.3"\<close> and release
  tag \<^verbatim>\<open>"v2.0.0"\<close> gives \<^verbatim>\<open>has_pitfall = True\<close> with the normalised values
  \<^verbatim>\<open>"1.2.3"\<close> and \<^verbatim>\<open>"2.0.0"\<close>; a record lacking either value gives
  \<^verbatim>\<open>has_pitfall = False\<close>.
\<close>

theorem version_mismatch_iff:
  "(field ''has_pitfall'' (detect_version_mismatch source_filename record file_name) =
      Some (PBool True) \<longleftrightarrow>
      (\<exists>source version tag.
         metadata_version record = Some (source, version) \<and> release_tag record = Some tag \<and>
         normalize_version (Some version) \<noteq> normalize_version (Some tag) \<and>
         nonempty (normalize_version (Some version)) \<and>
         nonempty (normalize_version (Some tag))))
   \<and> (field ''has_pitfall'' (detect_version_mismatch source_filename record file_name) \<noteq>
        Some (PBool True) \<longrightarrow>
      field ''has_pitfall'' (detect_version_mismatch source_filename record file_name) =
        Some (PBool False))
   \<and> (metadata_version record = None \<or> release_tag record = None \<longrightarrow>
        field ''has_pitfall'' (detect_version_mismatch source_filename record file_name) =
          Some (PBool False))
   \<and> map fst (detect_version_mismatch source_filename record file_name) = p001_fields
   \<and> (\<forall>source version tag.
        metadata_version record = Some (source, version) \<and> release_tag record = Some tag \<longrightarrow>
        field ''metadata_version'' (detect_version_mismatch source_filename record file_name) =
          Some (optional_str (normalize_version (Some version))) \<and>
        field ''release_version'' (detect_version_mismatch source_filename record file_name) =
          Some (optional_str (normalize_version (Some tag))) \<and>
        (field ''has_pitfall'' (detect_version_mismatch source_filename record file_name) =
           Some (PBool True) \<longrightarrow>
         field ''metadata_source'' (detect_version_mismatch source_filename record file_name) =
           Some (PStr source) \<and>
         field ''metadata_source_file''
           (detect_version_mismatch source_filename record file_name) =
           Some (source_filename source)))
   \<and> detect_version_mismatch source_filename version_sample ''test_repo.json'' =
       version_sample_finding (source_filename ''repo/package.json'')"
proof -
  let ?differ = "\<exists>source version tag.
         metadata_version record = Some (source, version) \<and> release_tag record = Some tag \<and>
         normalize_version (Some version) \<noteq> normalize_version (Some tag) \<and>
         nonempty (normalize_version (Some version)) \<and>
         nonempty (normalize_version (Some tag))"
  have issue: "field ''has_pitfall'' (detect_version_mismatch source_filename record file_name) =
      Some (PBool ?differ)"
    by (rule has_pitfall_bool)
  have first: "field ''has_pitfall'' (detect_version_mismatch source_filename record file_name) =
      Some (PBool True) \<longleftrightarrow> ?differ"
    unfolding issue by simp
  have second: "field ''has_pitfall'' (detect_version_mismatch source_filename record file_name) \<noteq>
        Some (PBool True) \<longrightarrow>
      field ''has_pitfall'' (detect_version_mismatch source_filename record file_name) =
        Some (PBool False)"
    unfolding issue by simp
  have "metadata_version record = None \<or> release_tag record = None \<Longrightarrow> \<not> ?differ"
    by fastforce
  then have third: "metadata_version record = None \<or> release_tag record = None \<longrightarrow>
        field ''has_pitfall'' (detect_version_mismatch source_filename record file_name) =
          Some (PBool False)"
    unfolding issue by simp
  note fourth = version_mismatch_fields [of source_filename "record" file_name]
  have fifth: "\<forall>source version tag.
        metadata_version record = Some (source, version) \<and> release_tag record = Some tag \<longrightarrow>
        field ''metadata_version'' (detect_version_mismatch source_filename record file_name) =
          Some (optional_str (normalize_version (Some version))) \<and>
        field ''release_version'' (detect_version_mismatch source_filename record file_name) =
          Some (optional_str (normalize_version (Some tag))) \<and>
        (field ''has_pitfall'' (detect_version_mismatch source_filename record file_name) =
           Some (PBool True) \<longrightarrow>
         field ''metadata_source'' (detect_version_mismatch source_filename record file_name) =
           Some (PStr source) \<and>
         field ''metadata_source_file''
           (detect_version_mismatch source_filename record file_name) =
           Some (source_filename source))"
    using version_mismatch_evidence [of "record" _ _ _ source_filename file_name] by blast
  note sixth = version_sample_result [of source_filename]
  from first second third fourth fifth sixth show ?thesis by (intro conjI)
qed

theorem version_mismatch_iff_witness:
  "metadata_version version_sample = Some (''repo/package.json'', ''1.2.3'')
   \<and> release_tag version_sample = Some ''v2.0.0''
   \<and> normalize_version (Some ''1.2.3'') = Some ''1.2.3''
   \<and> normalize_version (Some ''v2.0.0'') = Some ''2.0.0''
   \<and> field ''has_pitfall'' (detect_version_mismatch package_file version_sample ''test_repo.json'') =
       Some (PBool True)
   \<and> field ''metadata_version''
         (detect_version_mismatch package_file version_sample ''test_repo.json'') =
       Some (PStr ''1.2.3'')
   \<and> field ''release_version''
         (detect_version_mismatch package_file version_sample ''test_repo.json'') =
       Some (PStr ''2.0.0'')
   \<and> field ''metadata_source_file''
         (detect_version_mismatch package_file version_sample ''test_repo.json'') =
       Some (PStr ''package.json'')
   \<and> release_tag unreleased_sample = None
   \<and> field ''has_pitfall''
         (detect_version_mismatch package_file unreleased_sample ''test_repo.json'') =
       Some (PBool False)"
proof -
  note resolved = version_sample_resolved
  have unreleased: "release_tag unreleased_sample = None"
    by code_simp
  have differ: "normalize_version (Some ''1.2.3'') \<noteq> normalize_version (Some ''v2.0.0'')"
    "nonempty (normalize_version (Some ''1.2.3''))"
    "nonempty (normalize_version (Some ''v2.0.0''))"
    unfolding resolved by (simp_all add: nonempty_def)
  from resolved(1,2) differ have found: "\<exists>source version tag.
      metadata_version version_sample = Some (source, version) \<and>
      release_tag version_sample = Some tag \<and>
      normalize_version (Some version) \<noteq> normalize_version (Some tag) \<and>
      nonempty (normalize_version (Some version)) \<and>
      nonempty (normalize_version (Some tag))"
    by blast
  note iff = version_mismatch_iff [of package_file version_sample "''test_repo.json''"]
  from iff found
  have issue: "field ''has_pitfall''
      (detect_version_mismatch package_file version_sample ''test_repo.json'') = Some (PBool True)"
    by blast
  from iff resolved(1,2) issue
  have recorded: "field ''metadata_version''
        (detect_version_mismatch package_file version_sample ''test_repo.json'') =
      Some (optional_str (normalize_version (Some ''1.2.3'')))"
    "field ''release_version''
        (detect_version_mismatch package_file version_sample ''test_repo.json'') =
      Some (optional_str (normalize_version (Some ''v2.0.0'')))"
    "field ''metadata_source_file''
        (detect_version_mismatch package_file version_sample ''test_repo.json'') =
      Some (package_file ''repo/package.json'')"
    by blast+
  from version_mismatch_iff [of package_file unreleased_sample "''test_repo.json''"] unreleased
  have none: "field ''has_pitfall''
      (detect_version_mismatch package_file unreleased_sample ''test_repo.json'') =
      Some (PBool False)"
    by blast
  from resolved unreleased issue none recorded show ?thesis
    by (simp add: optional_str_def package_file_def)
qed

section \<open>Divergent repository URLs\<close>

text \<open>
  C6, as stated, fails on the metadata side: a repository URL from \<^verbatim>\<open>package.json\<close> is
  structured metadata and differs from the API URL, yet no issue is reported, as
  \<^verbatim>\<open>test_non_codemeta_metadata_ignored\<close> requires.
\<close>

theorem package_json_url_ignored:
  "structured_metadata
     (sample_entry ''repository/package.json'' ''code_parser'' ''https://github.com/user/repo2'')
   \<and> api_url (repository_sample
         [(''repository/package.json'', ''https://github.com/user/repo2'')]) =
       Some ''https://github.com/user/repo1''
   \<and> normalize_repository_url (Some ''https://github.com/user/repo2'') \<noteq>
       normalize_repository_url (Some ''https://github.com/user/repo1'')
   \<and> field ''has_pitfall''
         (detect_different_repository_pitfall
            (repository_sample [(''repository/package.json'', ''https://github.com/user/repo2'')])
            ''test.json'') = Some (PBool False)"
  by code_simp

text \<open>
  C6, amended. The check compares the API-derived repository URL with every repository
  URL whose source is \<^verbatim>\<open>codemeta.json\<close>, after normalisation. \<^verbatim>\<open>has_pitfall\<close> is true
  iff an API URL was resolved and at least one normalised codemeta URL differs from it;
  \<^verbatim>\<open>different_urls\<close> then holds all the codemeta URLs that differ, in extraction order;
  a URL that equals the API URL up to the \<^verbatim>\<open>.git\<close> suffix gives no issue.
\<close>

theorem different_repository_iff:
  "(field ''has_pitfall'' (detect_different_repository_pitfall record file_name) =
      Some (PBool True) \<longleftrightarrow>
      (\<exists>api. api_url record = Some api \<and>
         (\<exists>url \<in> set (metadata_urls record).
            normalize_repository_url (Some url) \<noteq> normalize_repository_url (Some api))))
   \<and> (field ''has_pitfall'' (detect_different_repository_pitfall record file_name) \<noteq>
        Some (PBool True) \<longrightarrow>
      field ''has_pitfall'' (detect_different_repository_pitfall record file_name) =
        Some (PBool False))
   \<and> (\<forall>api. api_url record = Some api \<longrightarrow>
        field ''different_urls'' (detect_different_repository_pitfall record file_name) =
          Some (PList (map PStr
            (filter (\<lambda>url. normalize_repository_url (Some url) \<noteq>
                           normalize_repository_url (Some api))
               (metadata_urls record)))))
   \<and> field ''has_pitfall''
         (detect_different_repository_pitfall
            (repository_sample [(''repository/codemeta.json'', ''https://github.com/user/repo1.git'')])
            ''test_repo.json'') = Some (PBool False)"
proof -
  have issue: "field ''has_pitfall'' (detect_different_repository_pitfall record file_name) =
      Some (PBool (different_urls record \<noteq> []))"
    by (simp add: detect_different_repository_pitfall_def field_def Let_def)
  have differ: "different_urls record \<noteq> [] \<longleftrightarrow>
      (\<exists>api. api_url record = Some api \<and>
         (\<exists>url \<in> set (metadata_urls record).
            normalize_repository_url (Some url) \<noteq> normalize_repository_url (Some api)))"
    by (cases "api_url record") (auto simp: different_urls_def filter_empty_conv)
  have collected: "\<forall>api. api_url record = Some api \<longrightarrow>
        field ''different_urls'' (detect_different_repository_pitfall record file_name) =
          Some (PList (map PStr
            (filter (\<lambda>url. normalize_repository_url (Some url) \<noteq>
                           normalize_repository_url (Some api))
               (metadata_urls record))))"
    by (simp add: detect_different_repository_pitfall_def field_def Let_def different_urls_def)
  have same: "field ''has_pitfall''
         (detect_different_repository_pitfall
            (repository_sample [(''repository/codemeta.json'', ''https://github.com/user/repo1.git'')])
            ''test_repo.json'') = Some (PBool False)"
    by code_simp
  from collected same show ?thesis
    unfolding issue differ [symmetric] by simp
qed


theorem different_repository_iff_witness:
  "api_url divergent_sample = Some ''https://github.com/user/repo1''
   \<and> ''https://github.com/user/repo2'' \<in> set (metadata_urls divergent_sample)
   \<and> normalize_repository_url (Some ''https://github.com/user/repo2'') \<noteq>
       normalize_repository_url (Some ''https://github.com/user/repo1'')
   \<and> field ''has_pitfall'' (detect_different_repository_pitfall divergent_sample ''test.json'') =
       Some (PBool True)
   \<and> field ''different_urls'' (detect_different_repository_pitfall divergent_sample ''test.json'') =
       Some (PList [PStr ''https://github.com/user/repo2'', PStr ''https://github.com/user/repo3''])"
proof -
  have api: "api_url divergent_sample = Some ''https://github.com/user/repo1''"
    and member: "''https://github.com/user/repo2'' \<in> set (metadata_urls divergent_sample)"
    and differ: "normalize_repository_url (Some ''https://github.com/user/repo2'') \<noteq>
       normalize_repository_url (Some ''https://github.com/user/repo1'')"
    and kept: "filter (\<lambda>url. normalize_repository_url (Some url) \<noteq>
                           normalize_repository_url (Some ''https://github.com/user/repo1''))
               (metadata_urls divergent_sample) =
            [''https://github.com/user/repo2'', ''https://github.com/user/repo3'']"
    by code_simp+
  note iff = different_repository_iff [of divergent_sample "''test.json''"]
  from iff api member differ
  have issue: "field ''has_pitfall''
      (detect_different_repository_pitfall divergent_sample ''test.json'') = Some (PBool True)"
    by blast
  from iff api
  have "field ''different_urls'' (detect_different_repository_pitfall divergent_sample ''test.json'') =
      Some (PList (map PStr
        (filter (\<lambda>url. normalize_repository_url (Some url) \<noteq>
                       normalize_repository_url (Some ''https://github.com/user/repo1''))
           (metadata_urls divergent_sample))))"
    by blast
  with kept have collected: "field ''different_urls''
      (detect_different_repository_pitfall divergent_sample ''test.json'') =
      Some (PList [PStr ''https://github.com/user/repo2'', PStr ''https://github.com/user/repo3''])"
    by simp
  from api member differ issue collected show ?thesis by blast
qed

section \<open>The accessibility probe\<close>

lemma sample_urls: "is_valid_url_format ''https://example.com''" "\<not> is_valid_url_format ''not a url''"
  by code_simp+

text \<open>
  C2, as stated, fails for the CI probe: \<^verbatim>\<open>test_various_status_codes\<close> of
  \<^verbatim>\<open>test_p015.py\<close> expects status 300, a 3xx code, to be inaccessible.
\<close>

theorem ci_probe_rejects_300:
  "is_valid_url_format ''https://example.com''
   \<and> check_ci_url_status (\<lambda>code. True) (\<lambda>url. Status 300) ''https://example.com'' =
       probe_result False (PInt 300) PNone"
  by code_simp

text \<open>
  C2, amended. On a well-formed URL both probes classify every 2xx status as accessible
  and every 4xx and 5xx status as inaccessible, with the status code recorded and no
  error; \<^verbatim>\<open>check_url_status\<close> classifies every 3xx status as accessible, while
  \<^verbatim>\<open>check_ci_url_status\<close> classifies 301 and 302 as accessible and 300 as inaccessible
  (nothing is said of its other 3xx codes). A network failure gives
  \<^verbatim>\<open>is_accessible = False\<close>, no status code and the failure's message as error. A
  malformed URL such as \<^verbatim>\<open>"not a url"\<close> gives \<^verbatim>\<open>is_accessible = False\<close> and the error
  \<^verbatim>\<open>"Invalid URL format"\<close> whatever the network would answer, and nothing is raised.
\<close>

theorem probe_classification:
  "(is_valid_url_format url \<and> network url = Status code \<longrightarrow>
      (200 \<le> code \<and> code < 300 \<longrightarrow>
         check_url_status network url = probe_result True (PInt (int code)) PNone \<and>
         check_ci_url_status other_redirect network url =
           probe_result True (PInt (int code)) PNone) \<and>
      (300 \<le> code \<and> code < 400 \<longrightarrow>
         check_url_status network url = probe_result True (PInt (int code)) PNone) \<and>
      (code = 301 \<or> code = 302 \<longrightarrow>
         check_ci_url_status other_redirect network url =
           probe_result True (PInt (int code)) PNone) \<and>
      (code = 300 \<longrightarrow>
         check_ci_url_status other_redirect network url =
           probe_result False (PInt (int code)) PNone) \<and>
      (400 \<le> code \<and> code < 600 \<longrightarrow>
         check_url_status network url = probe_result False (PInt (int code)) PNone \<and>
         check_ci_url_status other_redirect network url =
           probe_result False (PInt (int code)) PNone))
   \<and> (is_valid_url_format url \<and> network url = Failure message \<longrightarrow>
        check_url_status network url = probe_result False PNone (PStr message) \<and>
        check_ci_url_status other_redirect network url =
          probe_result False PNone (PStr message))
   \<and> (\<not> is_valid_url_format url \<longrightarrow>
        check_url_status network url = probe_result False PNone (PStr ''Invalid URL format'') \<and>
        check_ci_url_status other_redirect network url =
          probe_result False PNone (PStr ''Invalid URL format''))
   \<and> \<not> is_valid_url_format ''not a url''"
proof -
  have "\<not> is_valid_url_format ''not a url''" by code_simp
  then show ?thesis
    by (simp add: check_url_status_def check_ci_url_status_def probe_def)
qed

theorem probe_classification_witness:
  "is_valid_url_format ''https://example.com''
   \<and> check_url_status (\<lambda>url. Status 204) ''https://example.com'' =
       probe_result True (PInt 204) PNone
   \<and> check_ci_url_status (\<lambda>code. False) (\<lambda>url. Status 204) ''https://example.com'' =
       probe_result True (PInt 204) PNone
   \<and> check_url_status (\<lambda>url. Status 301) ''https://example.com'' =
       probe_result True (PInt 301) PNone
   \<and> check_ci_url_status (\<lambda>code. False) (\<lambda>url. Status 301) ''https://example.com'' =
       probe_result True (PInt 301) PNone
   \<and> check_ci_url_status (\<lambda>code. False) (\<lambda>url. Status 300) ''https://example.com'' =
       probe_result False (PInt 300) PNone
   \<and> check_url_status (\<lambda>url. Status 404) ''https://example.com'' =
       probe_result False (PInt 404) PNone
   \<and> check_ci_url_status (\<lambda>code. False) (\<lambda>url. Status 503) ''https://example.com'' =
       probe_result False (PInt 503) PNone
   \<and> check_url_status (\<lambda>url. Failure ''Connection refused'') ''https://example.com'' =
       probe_result False PNone (PStr ''Connection refused'')
   \<and> \<not> is_valid_url_format ''not a url''
   \<and> check_url_status (\<lambda>url. Status 200) ''not a url'' =
       probe_result False PNone (PStr ''Invalid URL format'')"
  using probe_classification [of "''https://example.com''" "\<lambda>url. Status 204" 204 "\<lambda>code. False"]
    probe_classification [of "''https://example.com''" "\<lambda>url. Status 301" 301 "\<lambda>code. False"]
    probe_classification [of "''https://example.com''" "\<lambda>url. Status 300" 300 "\<lambda>code. False"]
    probe_classification [of "''https://example.com''" "\<lambda>url. Status 404" 404 "\<lambda>code. False"]
    probe_classification [of "''https://example.com''" "\<lambda>url. Status 503" 503 "\<lambda>code. False"]
    probe_classification [of "''https://example.com''" "\<lambda>url. Failure ''Connection refused''" _
        "\<lambda>code. False" "''Connection refused''"]
    probe_classification [of "''not a url''" "\<lambda>url. Status 200" _ "\<lambda>code. False"]
    sample_urls
  by simp

section \<open>Aggregate percentages\<close>

lemma percentage_error:
  "\<bar>percentage triggered total_repos - of_nat triggered / of_nat total_repos * 100\<bar> \<le> 1 / 200"
proof -
  let ?y = "of_nat triggered / of_nat total_repos * 100 * 100 :: rat"
  have close: "\<bar>of_int (round ?y) - ?y\<bar> \<le> 1 / 2" by (rule of_int_round_abs_le)
  have "percentage triggered total_repos - of_nat triggered / of_nat total_repos * 100 =
      (of_int (round ?y) - ?y) / 100"
    by (simp add: percentage_def diff_divide_distrib)
  then have "\<bar>percentage triggered total_repos - of_nat triggered / of_nat total_repos * 100\<bar> =
      \<bar>of_int (round ?y) - ?y\<bar> / 100"
    by (simp only: abs_divide)
  also have "\<dots> \<le> (1 / 2) / 100"
    using close by (rule divide_right_mono) simp
  also have "\<dots> = 1 / 200" by simp
  finally show ?thesis .
qed

text \<open>
  C8. For every check id the aggregate percentage is
  \<^verbatim>\<open>count_triggered / total_repos * 100\<close> rounded to two decimals: a multiple of 1/100 at
  most half a hundredth away from the exact quotient. Three repositories of which one
  triggers the check give 33.33; two of three give 66.67, which truncation would not.
\<close>

theorem percentage_two_decimals:
  "(0 < total_repos \<longrightarrow>
      (\<exists>k :: int. percentage triggered total_repos = of_int k / 100) \<and>
      \<bar>percentage triggered total_repos - of_nat triggered / of_nat total_repos * 100\<bar> \<le> 1 / 200)
   \<and> (per_repo \<noteq> [] \<longrightarrow>
      aggregate_percentage check_id per_repo =
        Some (percentage (count_triggered check_id per_repo) (length per_repo)))
   \<and> (length per_repo = 3 \<and> count_triggered check_id per_repo = 1 \<longrightarrow>
      aggregate_percentage check_id per_repo = Some (3333 / 100))
   \<and> percentage 2 3 = 6667 / 100"
proof (intro conjI impI)
  show "\<bar>percentage triggered total_repos - of_nat triggered / of_nat total_repos * 100\<bar> \<le> 1 / 200"
    by (rule percentage_error)
next
  show "\<exists>k :: int. percentage triggered total_repos = of_int k / 100"
    by (auto simp: percentage_def)
next
  assume "per_repo \<noteq> []"
  then show "aggregate_percentage check_id per_repo =
        Some (percentage (count_triggered check_id per_repo) (length per_repo))"
    by (simp add: aggregate_percentage_def)
next
  have third: "percentage 1 3 = 3333 / 100" by code_simp
  assume "length per_repo = 3 \<and> count_triggered check_id per_repo = 1"
  with third show "aggregate_percentage check_id per_repo = Some (3333 / 100)"
    by (auto simp: aggregate_percentage_def)
next
  show "percentage 2 3 = 6667 / 100" by code_simp
qed

theorem percentage_two_decimals_witness:
  "(0 :: nat) < 3 \<and> batch_sample \<noteq> [] \<and> length batch_sample = 3
   \<and> count_triggered ''P001'' batch_sample = 1
   \<and> aggregate_percentage ''P001'' batch_sample = Some (3333 / 100)
   \<and> \<bar>percentage 1 3 - of_nat 1 / of_nat 3 * 100\<bar> \<le> 1 / 200"
proof -
  have sample: "batch_sample \<noteq> []" "length batch_sample = 3"
    "count_triggered ''P001'' batch_sample = 1"
    by code_simp+
  have positive: "(0 :: nat) < 3" by simp
  note rounded = percentage_two_decimals [of 3 1 batch_sample "''P001''"]
  from rounded sample have "aggregate_percentage ''P001'' batch_sample = Some (3333 / 100)"
    by blast
  moreover from rounded positive
  have "\<bar>percentage 1 3 - of_nat 1 / of_nat 3 * 100\<bar> \<le> 1 / 200"
    by blast
  ultimately show ?thesis using sample positive by blast
qed

end
